theory Spec2Isabelle
  imports
    Complex_Main
    "HOL-Library.Char_ord"
    "HOL-Library.List_Lexorder"
    "HOL-Library.Product_Lexorder"
    "HOL-Library.Multiset"
begin

section \<open>Values and documents\<close>

text \<open>
  The scalar values that \<^verbatim>\<open>server.py\<close> stores in, and reads from, its MongoDB
  collections: \<^verbatim>\<open>None\<close>, booleans, Python's unbounded integers, floats (only
  carried and compared, never computed with), strings, \<^verbatim>\<open>datetime\<close> instants and
  \<^verbatim>\<open>ObjectId\<close>s. An \<^verbatim>\<open>ObjectId\<close> is kept in the canonical form that \<^verbatim>\<open>str\<close>
  prints: its 24 lower-case hexadecimal digits. Integers are Python's, without the 64-bit
  range of the store; arrays and embedded documents, which none of the modelled fields
  holds, are left out.
\<close>

type_synonym oid = string

datatype val =
    VNull
  | VBool bool
  | VInt int
  | VFloat real
  | VStr string
  | VTime nat
  | VOid oid

text \<open>
  A Python dict with string keys. A stored document is its \<^verbatim>\<open>_id\<close> together with
  its other fields; a collection lists its documents in natural (insertion) order.
\<close>

type_synonym fields = "string \<rightharpoonup> val"
type_synonym stored = "oid \<times> fields"
type_synonym collection = "stored list"

datatype error =
    HTTPException nat string
  | InvalidId
  | KeyError string
  | TypeError
  | WriteError
  | DuplicateKeyError

text \<open>Truth value of a Python object, as \<^verbatim>\<open>not x\<close> takes it.\<close>

fun truthy :: "val \<Rightarrow> bool" where
  "truthy VNull = False"
| "truthy (VBool b) = b"
| "truthy (VInt n) = (n \<noteq> 0)"
| "truthy (VFloat x) = (x \<noteq> 0)"
| "truthy (VStr s) = (s \<noteq> [])"
| "truthy (VTime t) = True"
| "truthy (VOid i) = True"

subsection \<open>ObjectId\<close>

text \<open>
  \<^verbatim>\<open>bson.ObjectId(s)\<close> on a string: a 24 character hexadecimal string is accepted, in either
  case; anything else raises \<^verbatim>\<open>InvalidId\<close>.
\<close>

definition hex_lower :: "char \<Rightarrow> char option" where
  "hex_lower c =
     (if c \<in> set ''0123456789abcdef'' then Some c
      else map_of (zip ''ABCDEF'' ''abcdef'') c)"

fun fromhex :: "string \<Rightarrow> string option" where
  "fromhex [] = Some []"
| "fromhex (c # cs) =
     (case hex_lower c of
        None \<Rightarrow> None
      | Some d \<Rightarrow> (case fromhex cs of None \<Rightarrow> None | Some ds \<Rightarrow> Some (d # ds)))"

definition ObjectId :: "string \<Rightarrow> error + oid" where
  "ObjectId s =
     (if length s = 24
      then (case fromhex s of None \<Rightarrow> Inl InvalidId | Some h \<Rightarrow> Inr h)
      else Inl InvalidId)"

definition str_oid :: "oid \<Rightarrow> string" where
  "str_oid i = i"

section \<open>The document store\<close>

text \<open>
  The fragment of MongoDB's query and update language that the handlers use:
  equality and \<^verbatim>\<open>$ne\<close> conditions on top-level fields, \<^verbatim>\<open>$set\<close> and \<^verbatim>\<open>$inc\<close>,
  \<^verbatim>\<open>find\<close>, \<^verbatim>\<open>sort\<close>, \<^verbatim>\<open>find_one\<close>, \<^verbatim>\<open>insert_one\<close>, \<^verbatim>\<open>update_one\<close> (with
  \<^verbatim>\<open>upsert\<close>), \<^verbatim>\<open>delete_one\<close> and \<^verbatim>\<open>delete_many\<close>.
\<close>

datatype cond = Eq val | Ne val

type_synonym query = "(string \<times> cond) list"

datatype update = Set "(string \<times> val) list" | Inc string int

definition doc_of :: "stored \<Rightarrow> fields" where
  "doc_of d = (snd d)(''_id'' \<mapsto> VOid (fst d))"

text \<open>Numbers are compared by value across the two numeric types; a missing field equals null.\<close>

fun bson_eq :: "val \<Rightarrow> val \<Rightarrow> bool" where
  "bson_eq (VInt a) (VFloat b) = (real_of_int a = b)"
| "bson_eq (VFloat a) (VInt b) = (a = real_of_int b)"
| "bson_eq v w = (v = w)"

definition eq_match :: "val \<Rightarrow> val option \<Rightarrow> bool" where
  "eq_match v fo = (case fo of None \<Rightarrow> v = VNull | Some w \<Rightarrow> bson_eq v w)"

fun cond_holds :: "cond \<Rightarrow> val option \<Rightarrow> bool" where
  "cond_holds (Eq v) fo = eq_match v fo"
| "cond_holds (Ne v) fo = (\<not> eq_match v fo)"

definition matches :: "query \<Rightarrow> stored \<Rightarrow> bool" where
  "matches q d = list_all (\<lambda>(k, c). cond_holds c (doc_of d k)) q"

text \<open>
  The BSON comparison order, as a key: values of different types compare by the rank of
  their type (null and missing first, then numbers, strings, ObjectIds, booleans, dates);
  values of one type compare by value.
\<close>

type_synonym bson_key = "nat \<times> real \<times> string \<times> bool \<times> nat"

fun key_of :: "val option \<Rightarrow> bson_key" where
  "key_of None = (1, 0, [], False, 0)"
| "key_of (Some VNull) = (1, 0, [], False, 0)"
| "key_of (Some (VInt n)) = (2, real_of_int n, [], False, 0)"
| "key_of (Some (VFloat x)) = (2, x, [], False, 0)"
| "key_of (Some (VStr s)) = (3, 0, s, False, 0)"
| "key_of (Some (VOid i)) = (7, 0, i, False, 0)"
| "key_of (Some (VBool b)) = (8, 0, [], b, 0)"
| "key_of (Some (VTime t)) = (9, 0, [], False, t)"

definition find_docs :: "query \<Rightarrow> collection \<Rightarrow> stored list" where
  "find_docs q c = filter (matches q) c"

definition sort_asc :: "string \<Rightarrow> stored list \<Rightarrow> stored list" where
  "sort_asc k ds = sort_key (\<lambda>d. key_of (doc_of d k)) ds"

definition find_one :: "query \<Rightarrow> collection \<Rightarrow> stored option" where
  "find_one q c = List.find (matches q) c"

definition insert_one :: "oid \<Rightarrow> fields \<Rightarrow> collection \<Rightarrow> error + collection" where
  "insert_one new_id f c =
     (if new_id \<in> fst ` set c then Inl DuplicateKeyError else Inr (c @ [(new_id, f)]))"

fun apply_update :: "update \<Rightarrow> fields \<Rightarrow> error + fields" where
  "apply_update (Set kvs) f = Inr (f ++ map_of kvs)"
| "apply_update (Inc k n) f =
     (case f k of
        None \<Rightarrow> Inr (f(k \<mapsto> VInt n))
      | Some (VInt m) \<Rightarrow> Inr (f(k \<mapsto> VInt (m + n)))
      | Some (VFloat x) \<Rightarrow> Inr (f(k \<mapsto> VFloat (x + real_of_int n)))
      | Some _ \<Rightarrow> Inl WriteError)"

text \<open>Updates the first matching document; the count is \<^verbatim>\<open>matched_count\<close>.\<close>

fun update_first :: "query \<Rightarrow> update \<Rightarrow> collection \<Rightarrow> error + (nat \<times> collection)" where
  "update_first q u [] = Inr (0, [])"
| "update_first q u (d # ds) =
     (if matches q d
      then (case apply_update u (snd d) of
              Inl e \<Rightarrow> Inl e
            | Inr f \<Rightarrow> Inr (1, (fst d, f) # ds))
      else (case update_first q u ds of
              Inl e \<Rightarrow> Inl e
            | Inr (n, ds') \<Rightarrow> Inr (n, d # ds')))"

text \<open>
  With \<^verbatim>\<open>upsert\<close> and no match, a new document is inserted: the equality fields of the
  query with the update applied, under a fresh \<^verbatim>\<open>_id\<close>.
\<close>

definition query_seed :: "query \<Rightarrow> fields" where
  "query_seed q = map_of (List.map_filter (\<lambda>(k, c). case c of Eq v \<Rightarrow> Some (k, v) | Ne v \<Rightarrow> None) q)"

definition update_one ::
  "query \<Rightarrow> update \<Rightarrow> bool \<Rightarrow> oid \<Rightarrow> collection \<Rightarrow> error + (nat \<times> collection)" where
  "update_one q u upsert new_id c =
     (case update_first q u c of
        Inl e \<Rightarrow> Inl e
      | Inr (n, c') \<Rightarrow>
          (if n = 0 \<and> upsert
           then (case apply_update u (query_seed q) of
                   Inl e \<Rightarrow> Inl e
                 | Inr f \<Rightarrow>
                     (case insert_one new_id f c of
                        Inl e \<Rightarrow> Inl e
                      | Inr c'' \<Rightarrow> Inr (0, c'')))
           else Inr (n, c')))"

text \<open>Deletes the first matching document; the count is \<^verbatim>\<open>deleted_count\<close>.\<close>

fun delete_one :: "query \<Rightarrow> collection \<Rightarrow> nat \<times> collection" where
  "delete_one q [] = (0, [])"
| "delete_one q (d # ds) =
     (if matches q d then (1, ds)
      else (case delete_one q ds of (n, ds') \<Rightarrow> (n, d # ds')))"

definition delete_many :: "query \<Rightarrow> collection \<Rightarrow> nat \<times> collection" where
  "delete_many q c = (length (filter (matches q) c), filter (\<lambda>d. \<not> matches q d) c)"

section \<open>Request models\<close>

text \<open>
  The pydantic models of the request bodies, with the source's field names. A field of type
  \<^verbatim>\<open>Optional[...] = None\<close> is an option; a field with a default is filled in before
  the handler runs, so it is a plain value here.
\<close>

record CategoryCreate =
  name :: string
  name_ar :: string
  slug :: string
  image :: string
  order :: int

record CategoryUpdate =
  name :: "string option"
  name_ar :: "string option"
  slug :: "string option"
  image :: "string option"
  order :: "int option"

record MenuItemCreate =
  title :: string
  title_ar :: string
  description :: string
  description_ar :: string
  price :: real
  image :: string
  category_id :: string
  is_published :: bool

record MenuItemUpdate =
  title :: "string option"
  title_ar :: "string option"
  description :: "string option"
  description_ar :: "string option"
  price :: "real option"
  image :: "string option"
  category_id :: "string option"
  order :: "int option"
  is_published :: "bool option"

record SettingsUpdate =
  company_name :: "string option"
  company_name_ar :: "string option"
  company_subtitle :: "string option"
  company_subtitle_ar :: "string option"
  title_font :: "string option"
  subtitle_font :: "string option"
  bg_color :: "string option"
  text_color :: "string option"
  hero_video :: "string option"
  hero_image :: "string option"
  phone :: "string option"
  address :: "string option"
  address_ar :: "string option"
  opening_hours :: "string option"
  opening_hours_ar :: "string option"
  instagram :: "string option"
  google_maps :: "string option"
  about_story :: "string option"
  about_story_ar :: "string option"
  about_mission :: "string option"
  about_mission_ar :: "string option"
  about_vision :: "string option"
  about_vision_ar :: "string option"
  default_language :: "string option"
  restaurant_email :: "string option"
  enable_favorites :: "bool option"
  enable_cart :: "bool option"
  enable_menu :: "bool option"
  data_version :: "int option"

text \<open>\<^verbatim>\<open>data.dict()\<close>: the fields in declaration order.\<close>

definition CategoryCreate_dict :: "CategoryCreate \<Rightarrow> (string \<times> val) list" where
  "CategoryCreate_dict data =
     [(''name'', VStr (CategoryCreate.name data)),
      (''name_ar'', VStr (CategoryCreate.name_ar data)),
      (''slug'', VStr (CategoryCreate.slug data)),
      (''image'', VStr (CategoryCreate.image data)),
      (''order'', VInt (CategoryCreate.order data))]"

definition CategoryUpdate_dict :: "CategoryUpdate \<Rightarrow> (string \<times> val option) list" where
  "CategoryUpdate_dict data =
     [(''name'', map_option VStr (CategoryUpdate.name data)),
      (''name_ar'', map_option VStr (CategoryUpdate.name_ar data)),
      (''slug'', map_option VStr (CategoryUpdate.slug data)),
      (''image'', map_option VStr (CategoryUpdate.image data)),
      (''order'', map_option VInt (CategoryUpdate.order data))]"

definition MenuItemCreate_dict :: "MenuItemCreate \<Rightarrow> (string \<times> val) list" where
  "MenuItemCreate_dict data =
     [(''title'', VStr (MenuItemCreate.title data)),
      (''title_ar'', VStr (MenuItemCreate.title_ar data)),
      (''description'', VStr (MenuItemCreate.description data)),
      (''description_ar'', VStr (MenuItemCreate.description_ar data)),
      (''price'', VFloat (MenuItemCreate.price data)),
      (''image'', VStr (MenuItemCreate.image data)),
      (''category_id'', VStr (MenuItemCreate.category_id data)),
      (''is_published'', VBool (MenuItemCreate.is_published data))]"

definition MenuItemUpdate_dict :: "MenuItemUpdate \<Rightarrow> (string \<times> val option) list" where
  "MenuItemUpdate_dict data =
     [(''title'', map_option VStr (MenuItemUpdate.title data)),
      (''title_ar'', map_option VStr (MenuItemUpdate.title_ar data)),
      (''description'', map_option VStr (MenuItemUpdate.description data)),
      (''description_ar'', map_option VStr (MenuItemUpdate.description_ar data)),
      (''price'', map_option VFloat (MenuItemUpdate.price data)),
      (''image'', map_option VStr (MenuItemUpdate.image data)),
      (''category_id'', map_option VStr (MenuItemUpdate.category_id data)),
      (''order'', map_option VInt (MenuItemUpdate.order data)),
      (''is_published'', map_option VBool (MenuItemUpdate.is_published data))]"

definition SettingsUpdate_dict :: "SettingsUpdate \<Rightarrow> (string \<times> val option) list" where
  "SettingsUpdate_dict data =
     [(''company_name'', map_option VStr (company_name data)),
      (''company_name_ar'', map_option VStr (company_name_ar data)),
      (''company_subtitle'', map_option VStr (company_subtitle data)),
      (''company_subtitle_ar'', map_option VStr (company_subtitle_ar data)),
      (''title_font'', map_option VStr (title_font data)),
      (''subtitle_font'', map_option VStr (subtitle_font data)),
      (''bg_color'', map_option VStr (bg_color data)),
      (''text_color'', map_option VStr (text_color data)),
      (''hero_video'', map_option VStr (hero_video data)),
      (''hero_image'', map_option VStr (hero_image data)),
      (''phone'', map_option VStr (phone data)),
      (''address'', map_option VStr (address data)),
      (''address_ar'', map_option VStr (address_ar data)),
      (''opening_hours'', map_option VStr (opening_hours data)),
      (''opening_hours_ar'', map_option VStr (opening_hours_ar data)),
      (''instagram'', map_option VStr (instagram data)),
      (''google_maps'', map_option VStr (google_maps data)),
      (''about_story'', map_option VStr (about_story data)),
      (''about_story_ar'', map_option VStr (about_story_ar data)),
      (''about_mission'', map_option VStr (about_mission data)),
      (''about_mission_ar'', map_option VStr (about_mission_ar data)),
      (''about_vision'', map_option VStr (about_vision data)),
      (''about_vision_ar'', map_option VStr (about_vision_ar data)),
      (''default_language'', map_option VStr (default_language data)),
      (''restaurant_email'', map_option VStr (restaurant_email data)),
      (''enable_favorites'', map_option VBool (enable_favorites data)),
      (''enable_cart'', map_option VBool (enable_cart data)),
      (''enable_menu'', map_option VBool (enable_menu data)),
      (''data_version'', map_option VInt (data_version data))]"

text \<open>\<^verbatim>\<open>{k: v for k, v in data.dict().items() if v is not None}\<close>\<close>

fun not_None :: "(string \<times> val option) list \<Rightarrow> (string \<times> val) list" where
  "not_None [] = []"
| "not_None ((k, None) # kvs) = not_None kvs"
| "not_None ((k, Some v) # kvs) = (k, v) # not_None kvs"

section \<open>The handlers\<close>

text \<open>
  The three collections the catalogue handlers touch. What a request takes from its
  environment is passed in: the clock (\<^verbatim>\<open>datetime.utcnow()\<close>), the \<^verbatim>\<open>_id\<close> the driver
  generates for \<^verbatim>\<open>insert_one\<close>, and the \<^verbatim>\<open>_id\<close> the server generates for an upsert.
\<close>

record db =
  categories :: collection
  menu_items :: collection
  settings :: collection

record env =
  utcnow :: nat
  inserted_id :: oid
  upserted_id :: oid

text \<open>The JSON bodies the handlers return, one constructor for each shape.\<close>

datatype response =
    Categories "fields option list"
  | Category "fields option"
  | Items "fields option list"
  | Item "fields option"
  | Message string
  | TogglePublish string bool
  | Settings "fields option"
  | PublicData "fields option" "fields option list" "fields option list" val nat
  | DataVersion val nat

type_synonym result = "(error + response) \<times> db"

subsection \<open>Helper functions\<close>

text \<open>
  \<^verbatim>\<open>verify_token\<close>: the outcome of \<^verbatim>\<open>jwt.decode\<close> on the bearer credentials is the
  argument; the two exceptions become a 401.
\<close>

datatype credentials = Payload fields | ExpiredSignatureError | InvalidTokenError

fun verify_token :: "credentials \<Rightarrow> error + fields" where
  "verify_token (Payload payload) = Inr payload"
| "verify_token ExpiredSignatureError = Inl (HTTPException 401 ''Token expired'')"
| "verify_token InvalidTokenError = Inl (HTTPException 401 ''Invalid token'')"

text \<open>\<^verbatim>\<open>doc["id"] = str(doc.pop("_id"))\<close> on a document as \<^verbatim>\<open>find\<close> returns it.\<close>

fun serialize_doc :: "stored option \<Rightarrow> fields option" where
  "serialize_doc None = None"
| "serialize_doc (Some d) = Some (((doc_of d)(''_id'' := None))(''id'' \<mapsto> VStr (str_oid (fst d))))"

definition serialize_docs :: "stored list \<Rightarrow> fields option list" where
  "serialize_docs docs = map (\<lambda>doc. serialize_doc (Some doc)) docs"

text \<open>\<^verbatim>\<open>settings.get("data_version", 1) if settings else 1\<close>\<close>

definition get_default :: "fields \<Rightarrow> string \<Rightarrow> val \<Rightarrow> val" where
  "get_default d k dflt = (case d k of None \<Rightarrow> dflt | Some v \<Rightarrow> v)"

text \<open>
  \<^verbatim>\<open>db.settings.update_one({}, {"$inc": {"data_version": 1}}, upsert=True)\<close>, the line
  that the handlers repeat.
\<close>

definition inc_data_version :: "env \<Rightarrow> db \<Rightarrow> error + db" where
  "inc_data_version e s =
     (case update_one [] (Inc ''data_version'' 1) True (upserted_id e) (settings s) of
        Inl err \<Rightarrow> Inl err
      | Inr (n, c) \<Rightarrow> Inr (s\<lparr>settings := c\<rparr>))"

subsection \<open>Categories\<close>

definition get_categories :: "db \<Rightarrow> result" where
  "get_categories s =
     (Inr (Categories (serialize_docs (sort_asc ''order'' (find_docs [] (categories s))))), s)"

definition create_category :: "credentials \<Rightarrow> CategoryCreate \<Rightarrow> env \<Rightarrow> db \<Rightarrow> result" where
  "create_category user data e s =
     (case verify_token user of
        Inl err \<Rightarrow> (Inl err, s)
      | Inr _ \<Rightarrow>
          (let category = map_of (CategoryCreate_dict data);
               category = category(''created_at'' \<mapsto> VTime (utcnow e))
           in case insert_one (inserted_id e) category (categories s) of
                Inl err \<Rightarrow> (Inl err, s)
              | Inr c \<Rightarrow>
                  (let category = category(''_id'' \<mapsto> VOid (inserted_id e));
                       category = category(''id'' \<mapsto> VStr (str_oid (inserted_id e)));
                       category = category(''_id'' := None)
                   in (Inr (Category (Some category)), s\<lparr>categories := c\<rparr>))))"

definition update_category ::
  "credentials \<Rightarrow> string \<Rightarrow> CategoryUpdate \<Rightarrow> env \<Rightarrow> db \<Rightarrow> result" where
  "update_category user cid data e s =
     (case verify_token user of
        Inl err \<Rightarrow> (Inl err, s)
      | Inr _ \<Rightarrow>
          (let update_data = not_None (CategoryUpdate_dict data)
           in if update_data = [] then (Inl (HTTPException 400 ''No data to update''), s)
              else
                (let update_data = update_data @ [(''updated_at'', VTime (utcnow e))]
                 in case ObjectId cid of
                      Inl err \<Rightarrow> (Inl err, s)
                    | Inr i \<Rightarrow>
                        (case update_one [(''_id'', Eq (VOid i))] (Set update_data) False
                                (upserted_id e) (categories s) of
                           Inl err \<Rightarrow> (Inl err, s)
                         | Inr (matched_count, c) \<Rightarrow>
                             (let s1 = s\<lparr>categories := c\<rparr>
                              in if matched_count = 0
                                 then (Inl (HTTPException 404 ''Category not found''), s1)
                                 else
                                   (case inc_data_version e s1 of
                                      Inl err \<Rightarrow> (Inl err, s1)
                                    | Inr s2 \<Rightarrow>
                                        (Inr (Category (serialize_doc
                                           (find_one [(''_id'', Eq (VOid i))] (categories s2)))),
                                         s2)))))))"

definition delete_category :: "credentials \<Rightarrow> string \<Rightarrow> db \<Rightarrow> result" where
  "delete_category user cid s =
     (case verify_token user of
        Inl err \<Rightarrow> (Inl err, s)
      | Inr _ \<Rightarrow>
          (let s1 = s\<lparr>menu_items :=
                        snd (delete_many [(''category_id'', Eq (VStr cid))] (menu_items s))\<rparr>
           in case ObjectId cid of
                Inl err \<Rightarrow> (Inl err, s1)
              | Inr i \<Rightarrow>
                  (case delete_one [(''_id'', Eq (VOid i))] (categories s1) of
                     (deleted_count, c) \<Rightarrow>
                       (let s2 = s1\<lparr>categories := c\<rparr>
                        in if deleted_count = 0
                           then (Inl (HTTPException 404 ''Category not found''), s2)
                           else (Inr (Message ''Category deleted''), s2)))))"

subsection \<open>Menu items\<close>

text \<open>
  \<^verbatim>\<open>if category_id:\<close> and \<^verbatim>\<open>if published_only:\<close> test truth, so
  an empty string and \<^verbatim>\<open>False\<close> add no condition.
\<close>

definition menu_items_query :: "string option \<Rightarrow> bool option \<Rightarrow> query" where
  "menu_items_query cat published_only =
     (case cat of
        None \<Rightarrow> []
      | Some c \<Rightarrow> if c \<noteq> [] then [(''category_id'', Eq (VStr c))] else [])
     @ (if published_only = Some True then [(''is_published'', Ne (VBool False))] else [])"

text \<open>The local \<^verbatim>\<open>items\<close> of \<^verbatim>\<open>get_menu_items\<close>: the documents found, sorted.\<close>

definition find_menu_items :: "string option \<Rightarrow> bool option \<Rightarrow> db \<Rightarrow> stored list" where
  "find_menu_items cat published_only s =
     sort_asc ''order'' (find_docs (menu_items_query cat published_only) (menu_items s))"

definition get_menu_items :: "string option \<Rightarrow> bool option \<Rightarrow> db \<Rightarrow> result" where
  "get_menu_items cat published_only s =
     (Inr (Items (serialize_docs (find_menu_items cat published_only s))), s)"

definition get_menu_item :: "string \<Rightarrow> db \<Rightarrow> result" where
  "get_menu_item item_id s =
     (case ObjectId item_id of
        Inl err \<Rightarrow> (Inl err, s)
      | Inr i \<Rightarrow>
          (case find_one [(''_id'', Eq (VOid i))] (menu_items s) of
             None \<Rightarrow> (Inl (HTTPException 404 ''Item not found''), s)
           | Some item \<Rightarrow> (Inr (Item (serialize_doc (Some item))), s)))"

definition create_menu_item :: "credentials \<Rightarrow> MenuItemCreate \<Rightarrow> env \<Rightarrow> db \<Rightarrow> result" where
  "create_menu_item user data e s =
     (case verify_token user of
        Inl err \<Rightarrow> (Inl err, s)
      | Inr _ \<Rightarrow>
          (let item = map_of (MenuItemCreate_dict data);
               item = item(''created_at'' \<mapsto> VTime (utcnow e))
           in case insert_one (inserted_id e) item (menu_items s) of
                Inl err \<Rightarrow> (Inl err, s)
              | Inr c \<Rightarrow>
                  (let item = item(''_id'' \<mapsto> VOid (inserted_id e));
                       item = item(''id'' \<mapsto> VStr (str_oid (inserted_id e)));
                       s1 = s\<lparr>menu_items := c\<rparr>
                   in case inc_data_version e s1 of
                        Inl err \<Rightarrow> (Inl err, s1)
                      | Inr s2 \<Rightarrow> (Inr (Item (Some item)), s2))))"

definition update_menu_item ::
  "credentials \<Rightarrow> string \<Rightarrow> MenuItemUpdate \<Rightarrow> env \<Rightarrow> db \<Rightarrow> result" where
  "update_menu_item user item_id data e s =
     (case verify_token user of
        Inl err \<Rightarrow> (Inl err, s)
      | Inr _ \<Rightarrow>
          (let update_data = not_None (MenuItemUpdate_dict data)
           in if update_data = [] then (Inl (HTTPException 400 ''No data to update''), s)
              else
                (let update_data = update_data @ [(''updated_at'', VTime (utcnow e))]
                 in case ObjectId item_id of
                      Inl err \<Rightarrow> (Inl err, s)
                    | Inr i \<Rightarrow>
                        (case update_one [(''_id'', Eq (VOid i))] (Set update_data) False
                                (upserted_id e) (menu_items s) of
                           Inl err \<Rightarrow> (Inl err, s)
                         | Inr (matched_count, c) \<Rightarrow>
                             (let s1 = s\<lparr>menu_items := c\<rparr>
                              in if matched_count = 0
                                 then (Inl (HTTPException 404 ''Item not found''), s1)
                                 else
                                   (case inc_data_version e s1 of
                                      Inl err \<Rightarrow> (Inl err, s1)
                                    | Inr s2 \<Rightarrow>
                                        (Inr (Item (serialize_doc
                                           (find_one [(''_id'', Eq (VOid i))] (menu_items s2)))),
                                         s2)))))))"

definition delete_menu_item :: "credentials \<Rightarrow> string \<Rightarrow> env \<Rightarrow> db \<Rightarrow> result" where
  "delete_menu_item user item_id e s =
     (case verify_token user of
        Inl err \<Rightarrow> (Inl err, s)
      | Inr _ \<Rightarrow>
          (case ObjectId item_id of
             Inl err \<Rightarrow> (Inl err, s)
           | Inr i \<Rightarrow>
               (case delete_one [(''_id'', Eq (VOid i))] (menu_items s) of
                  (deleted_count, c) \<Rightarrow>
                    (let s1 = s\<lparr>menu_items := c\<rparr>
                     in if deleted_count = 0
                        then (Inl (HTTPException 404 ''Item not found''), s1)
                        else
                          (case inc_data_version e s1 of
                             Inl err \<Rightarrow> (Inl err, s1)
                           | Inr s2 \<Rightarrow> (Inr (Message ''Item deleted''), s2))))))"

definition toggle_publish_menu_item :: "credentials \<Rightarrow> string \<Rightarrow> env \<Rightarrow> db \<Rightarrow> result" where
  "toggle_publish_menu_item user item_id e s =
     (case verify_token user of
        Inl err \<Rightarrow> (Inl err, s)
      | Inr _ \<Rightarrow>
          (case ObjectId item_id of
             Inl err \<Rightarrow> (Inl err, s)
           | Inr i \<Rightarrow>
               (case find_one [(''_id'', Eq (VOid i))] (menu_items s) of
                  None \<Rightarrow> (Inl (HTTPException 404 ''Item not found''), s)
                | Some item \<Rightarrow>
                    (let current_status = get_default (doc_of item) ''is_published'' (VBool True);
                         new_status = (\<not> truthy current_status)
                     in case update_one [(''_id'', Eq (VOid i))]
                               (Set [(''is_published'', VBool new_status),
                                     (''updated_at'', VTime (utcnow e))])
                               False (upserted_id e) (menu_items s) of
                          Inl err \<Rightarrow> (Inl err, s)
                        | Inr (n, c) \<Rightarrow>
                            (let s1 = s\<lparr>menu_items := c\<rparr>
                             in case inc_data_version e s1 of
                                  Inl err \<Rightarrow> (Inl err, s1)
                                | Inr s2 \<Rightarrow> (Inr (TogglePublish item_id new_status), s2))))))"

subsection \<open>Bulk reorder\<close>

text \<open>
  \<^verbatim>\<open>ObjectId(item["id"])\<close> on a JSON value: a string is parsed, \<^verbatim>\<open>None\<close> makes the
  constructor generate a new id, any other type is refused.
\<close>

fun ObjectId_of :: "env \<Rightarrow> val \<Rightarrow> error + oid" where
  "ObjectId_of e (VStr s) = ObjectId s"
| "ObjectId_of e VNull = Inr (inserted_id e)"
| "ObjectId_of e (VOid i) = Inr i"
| "ObjectId_of e v = Inl TypeError"

text \<open>
  The \<^verbatim>\<open>for item in orders\<close> loop over one collection. An exception leaves the loop
  with the updates made so far in place.
\<close>

fun reorder_loop :: "env \<Rightarrow> fields list \<Rightarrow> collection \<Rightarrow> error option \<times> collection" where
  "reorder_loop e [] c = (None, c)"
| "reorder_loop e (item # orders) c =
     (case item ''id'' of
        None \<Rightarrow> (Some (KeyError ''id''), c)
      | Some v \<Rightarrow>
          (case ObjectId_of e v of
             Inl err \<Rightarrow> (Some err, c)
           | Inr i \<Rightarrow>
               (case item ''order'' of
                  None \<Rightarrow> (Some (KeyError ''order''), c)
                | Some ord \<Rightarrow>
                    (case update_one [(''_id'', Eq (VOid i))] (Set [(''order'', ord)]) False
                            (upserted_id e) c of
                       Inl err \<Rightarrow> (Some err, c)
                     | Inr (n, c') \<Rightarrow> reorder_loop e orders c'))))"

definition reorder_categories :: "credentials \<Rightarrow> fields list \<Rightarrow> env \<Rightarrow> db \<Rightarrow> result" where
  "reorder_categories user orders e s =
     (case verify_token user of
        Inl err \<Rightarrow> (Inl err, s)
      | Inr _ \<Rightarrow>
          (case reorder_loop e orders (categories s) of
             (Some err, c) \<Rightarrow> (Inl err, s\<lparr>categories := c\<rparr>)
           | (None, c) \<Rightarrow>
               (let s1 = s\<lparr>categories := c\<rparr>
                in case inc_data_version e s1 of
                     Inl err \<Rightarrow> (Inl err, s1)
                   | Inr s2 \<Rightarrow> (Inr (Message ''Categories reordered''), s2))))"

definition reorder_menu_items :: "credentials \<Rightarrow> fields list \<Rightarrow> env \<Rightarrow> db \<Rightarrow> result" where
  "reorder_menu_items user orders e s =
     (case verify_token user of
        Inl err \<Rightarrow> (Inl err, s)
      | Inr _ \<Rightarrow>
          (case reorder_loop e orders (menu_items s) of
             (Some err, c) \<Rightarrow> (Inl err, s\<lparr>menu_items := c\<rparr>)
           | (None, c) \<Rightarrow>
               (let s1 = s\<lparr>menu_items := c\<rparr>
                in case inc_data_version e s1 of
                     Inl err \<Rightarrow> (Inl err, s1)
                   | Inr s2 \<Rightarrow> (Inr (Message ''Menu items reordered''), s2))))"

subsection \<open>Settings\<close>

definition get_settings :: "db \<Rightarrow> result" where
  "get_settings s =
     (case find_one [] (settings s) of
        Some d \<Rightarrow> (Inr (Settings (serialize_doc (Some d))), s)
      | None \<Rightarrow> (Inr (Settings (Some Map.empty)), s))"

definition update_settings :: "credentials \<Rightarrow> SettingsUpdate \<Rightarrow> env \<Rightarrow> db \<Rightarrow> result" where
  "update_settings user data e s =
     (case verify_token user of
        Inl err \<Rightarrow> (Inl err, s)
      | Inr _ \<Rightarrow>
          (let update_data = not_None (SettingsUpdate_dict data)
           in if update_data = [] then (Inl (HTTPException 400 ''No data to update''), s)
              else
                (let update_data = update_data @ [(''updated_at'', VTime (utcnow e))]
                 in case update_one [] (Set update_data) True (upserted_id e) (settings s) of
                      Inl err \<Rightarrow> (Inl err, s)
                    | Inr (n, c) \<Rightarrow>
                        (let s1 = s\<lparr>settings := c\<rparr>
                         in case inc_data_version e s1 of
                              Inl err \<Rightarrow> (Inl err, s1)
                            | Inr s2 \<Rightarrow>
                                (Inr (Settings (serialize_doc (find_one [] (settings s2)))),
                                 s2)))))"

subsection \<open>Public data\<close>

text \<open>
  \<^verbatim>\<open>get_public_data\<close> serializes the settings document first, then reads
  \<^verbatim>\<open>data_version\<close> from the dict that \<^verbatim>\<open>serialize_doc\<close> changed in place;
  \<^verbatim>\<open>get_data_version\<close> reads it from the document as found. A found document is never an
  empty dict, so \<^verbatim>\<open>if settings\<close> tests for \<^verbatim>\<open>None\<close>. The time stamps are kept as
  instants.
\<close>

definition get_public_data :: "env \<Rightarrow> db \<Rightarrow> result" where
  "get_public_data e s =
     (let st = find_one [] (settings s);
          cats = sort_asc ''order'' (find_docs [] (categories s));
          items = sort_asc ''order'' (find_docs [] (menu_items s));
          ser = serialize_doc st
      in (Inr (PublicData
                 (case ser of Some d \<Rightarrow> Some d | None \<Rightarrow> Some Map.empty)
                 (serialize_docs cats)
                 (serialize_docs items)
                 (case ser of Some d \<Rightarrow> get_default d ''data_version'' (VInt 1) | None \<Rightarrow> VInt 1)
                 (utcnow e)),
          s))"

definition get_data_version :: "env \<Rightarrow> db \<Rightarrow> result" where
  "get_data_version e s =
     (let st = find_one [] (settings s)
      in (Inr (DataVersion
                 (case st of
                    Some d \<Rightarrow> get_default (doc_of d) ''data_version'' (VInt 1)
                  | None \<Rightarrow> VInt 1)
                 (utcnow e)),
          s))"

text \<open>The \<^verbatim>\<open>dataVersion\<close> field of a response body, when it has one.\<close>

fun dataVersion :: "error + response \<Rightarrow> val option" where
  "dataVersion (Inr (PublicData st cats items v t)) = Some v"
| "dataVersion (Inr (DataVersion v t)) = Some v"
| "dataVersion r = None"

section \<open>The interface as a whole\<close>

text \<open>
  The routes of the catalogue, the settings and the public read model, as requests; a
  request runs its handler, and a sequence of requests runs one after the other on the
  store, whatever each one answers.
\<close>

datatype call =
    GetCategories
  | CreateCategory credentials CategoryCreate
  | UpdateCategory credentials string CategoryUpdate
  | DeleteCategory credentials string
  | GetMenuItems "string option" "bool option"
  | GetMenuItem string
  | CreateMenuItem credentials MenuItemCreate
  | UpdateMenuItem credentials string MenuItemUpdate
  | DeleteMenuItem credentials string
  | TogglePublishMenuItem credentials string
  | ReorderCategories credentials "fields list"
  | ReorderMenuItems credentials "fields list"
  | GetSettings
  | UpdateSettings credentials SettingsUpdate
  | GetPublicData
  | GetDataVersion

fun handle :: "call \<Rightarrow> env \<Rightarrow> db \<Rightarrow> result" where
  "handle GetCategories e s = get_categories s"
| "handle (CreateCategory user data) e s = create_category user data e s"
| "handle (UpdateCategory user cid data) e s = update_category user cid data e s"
| "handle (DeleteCategory user cid) e s = delete_category user cid s"
| "handle (GetMenuItems cat published_only) e s = get_menu_items cat published_only s"
| "handle (GetMenuItem item_id) e s = get_menu_item item_id s"
| "handle (CreateMenuItem user data) e s = create_menu_item user data e s"
| "handle (UpdateMenuItem user item_id data) e s = update_menu_item user item_id data e s"
| "handle (DeleteMenuItem user item_id) e s = delete_menu_item user item_id e s"
| "handle (TogglePublishMenuItem user item_id) e s = toggle_publish_menu_item user item_id e s"
| "handle (ReorderCategories user orders) e s = reorder_categories user orders e s"
| "handle (ReorderMenuItems user orders) e s = reorder_menu_items user orders e s"
| "handle GetSettings e s = get_settings s"
| "handle (UpdateSettings user data) e s = update_settings user data e s"
| "handle GetPublicData e s = get_public_data e s"
| "handle GetDataVersion e s = get_data_version e s"

fun run :: "(call \<times> env) list \<Rightarrow> db \<Rightarrow> db" where
  "run [] s = s"
| "run ((c, e) # cs) s = run cs (snd (handle c e s))"

text \<open>The mutating admin calls on Categories, Menu Items and Settings.\<close>

fun mutating :: "call \<Rightarrow> bool" where
  "mutating (CreateCategory user data) = True"
| "mutating (UpdateCategory user cid data) = True"
| "mutating (DeleteCategory user cid) = True"
| "mutating (CreateMenuItem user data) = True"
| "mutating (UpdateMenuItem user item_id data) = True"
| "mutating (DeleteMenuItem user item_id) = True"
| "mutating (TogglePublishMenuItem user item_id) = True"
| "mutating (ReorderCategories user orders) = True"
| "mutating (ReorderMenuItems user orders) = True"
| "mutating (UpdateSettings user data) = True"
| "mutating c = False"

definition successful :: "call \<Rightarrow> env \<Rightarrow> db \<Rightarrow> bool" where
  "successful c e s = (case fst (handle c e s) of Inl err \<Rightarrow> False | Inr r \<Rightarrow> True)"



text \<open>A settings update whose payload carries \<^verbatim>\<open>data_version\<close>.\<close>

fun sets_version :: "call \<Rightarrow> bool" where
  "sets_version (UpdateSettings user data) = (data_version data \<noteq> None)"
| "sets_version c = False"

text \<open>Creating and deleting a category.\<close>

fun category_create_or_delete :: "call \<Rightarrow> bool" where
  "category_create_or_delete (CreateCategory user data) = True"
| "category_create_or_delete (DeleteCategory user cid) = True"
| "category_create_or_delete c = False"

section \<open>Observations\<close>

text \<open>
  The \<^verbatim>\<open>data_version\<close> field as stored: of the first settings document, if there is a
  document and it has the field.
\<close>

definition stored_version :: "db \<Rightarrow> val option" where
  "stored_version s = (case settings s of [] \<Rightarrow> None | d # ds \<Rightarrow> snd d ''data_version'')"

text \<open>The counter is an integer whenever it is stored, as every write of the handlers leaves it.\<close>

definition version_ok :: "db \<Rightarrow> bool" where
  "version_ok s = (case stored_version s of None \<Rightarrow> True | Some (VInt n) \<Rightarrow> True | Some v \<Rightarrow> False)"

text \<open>Within a collection no two documents have the same \<^verbatim>\<open>_id\<close>.\<close>

definition unique_ids :: "db \<Rightarrow> bool" where
  "unique_ids s =
     (distinct (map fst (categories s)) \<and> distinct (map fst (menu_items s))
      \<and> distinct (map fst (settings s)))"

text \<open>An item list that contains the document with a given id.\<close>

fun listed :: "oid \<Rightarrow> error + response \<Rightarrow> bool" where
  "listed i (Inr (Items ds)) =
     list_ex (\<lambda>d. case d of None \<Rightarrow> False | Some f \<Rightarrow> f ''id'' = Some (VStr (str_oid i))) ds"
| "listed i r = False"




text \<open>A payload with no field set.\<close>

definition all_None :: "(string \<times> val option) list \<Rightarrow> bool" where
  "all_None kvs = list_all (\<lambda>kv. snd kv = None) kvs"

text \<open>
  What the \<^verbatim>\<open>$inc\<close> by one leaves in a counter field that is absent or an integer, and
  the number a reader takes from it (1 when it is absent).
\<close>

definition incremented :: "val option \<Rightarrow> val option" where
  "incremented v =
     (case v of None \<Rightarrow> Some (VInt 1) | Some (VInt n) \<Rightarrow> Some (VInt (n + 1)) | Some w \<Rightarrow> Some w)"


text \<open>
  A result whose store has the counter incremented once if the request succeeded, and as
  it was if the request failed.
\<close>

definition counted :: "db \<Rightarrow> result \<Rightarrow> bool" where
  "counted s x =
     (version_ok (snd x)
      \<and> stored_version (snd x) =
          (case fst x of Inl err \<Rightarrow> stored_version s | Inr r \<Rightarrow> incremented (stored_version s)))"

section \<open>Example data\<close>

definition admin :: credentials where
  "admin = Payload [''username'' \<mapsto> VStr ''admin'']"

definition env1 :: env where
  "env1 = \<lparr>utcnow = 100, inserted_id = ''111111111111111111111111'',
            upserted_id = ''222222222222222222222222''\<rparr>"

definition env2 :: env where
  "env2 = \<lparr>utcnow = 200, inserted_id = ''333333333333333333333333'',
            upserted_id = ''444444444444444444444444''\<rparr>"

definition grill :: string where
  "grill = ''aaaaaaaaaaaaaaaaaaaaaaaa''"

definition drinks :: string where
  "drinks = ''0123456789abcdef01234567''"

definition kebab :: string where
  "kebab = ''bbbbbbbbbbbbbbbbbbbbbbbb''"

definition tea :: string where
  "tea = ''cccccccccccccccccccccccc''"

text \<open>
  A store with one category, a published item in it, an unpublished item that refers to a
  category id without a category, and a settings document at version 10.
\<close>

definition shop :: db where
  "shop =
     \<lparr>categories =
        [(''aaaaaaaaaaaaaaaaaaaaaaaa'', [''name'' \<mapsto> VStr ''Grill'', ''order'' \<mapsto> VInt 1])],
      menu_items =
        [(''bbbbbbbbbbbbbbbbbbbbbbbb'',
          [''title'' \<mapsto> VStr ''Kebab'', ''category_id'' \<mapsto> VStr ''aaaaaaaaaaaaaaaaaaaaaaaa'',
           ''order'' \<mapsto> VInt 2]),
         (''cccccccccccccccccccccccc'',
          [''title'' \<mapsto> VStr ''Tea'', ''category_id'' \<mapsto> VStr ''0123456789abcdef01234567'',
           ''order'' \<mapsto> VInt 1, ''is_published'' \<mapsto> VBool False])],
      settings =
        [(''dddddddddddddddddddddddd'',
          [''company_name'' \<mapsto> VStr ''The Limon'', ''data_version'' \<mapsto> VInt 10])]\<rparr>"

text \<open>A store as \<^verbatim>\<open>init_default_data\<close> leaves the settings: a document without \<^verbatim>\<open>data_version\<close>.\<close>

definition fresh_install :: db where
  "fresh_install =
     \<lparr>categories = [], menu_items = [],
      settings = [(''dddddddddddddddddddddddd'', [''company_name'' \<mapsto> VStr ''The Limon''])]\<rparr>"

text \<open>Update payloads: without any field, and with one field.\<close>

definition no_category_fields :: CategoryUpdate where
  "no_category_fields =
     \<lparr>name = None, name_ar = None, slug = None, image = None, order = None\<rparr>"

definition rename_category :: CategoryUpdate where
  "rename_category =
     \<lparr>name = Some ''Mangal'', name_ar = None, slug = None, image = None, order = None\<rparr>"

definition no_item_fields :: MenuItemUpdate where
  "no_item_fields =
     \<lparr>title = None, title_ar = None, description = None, description_ar = None, price = None,
      image = None, category_id = None, order = None, is_published = None\<rparr>"

definition new_price :: MenuItemUpdate where
  "new_price =
     \<lparr>title = None, title_ar = None, description = None, description_ar = None,
      price = Some 10, image = None, category_id = None, order = None, is_published = None\<rparr>"

definition no_settings_fields :: SettingsUpdate where
  "no_settings_fields =
     \<lparr>company_name = None, company_name_ar = None, company_subtitle = None,
      company_subtitle_ar = None, title_font = None, subtitle_font = None, bg_color = None,
      text_color = None, hero_video = None, hero_image = None, phone = None, address = None,
      address_ar = None, opening_hours = None, opening_hours_ar = None, instagram = None,
      google_maps = None, about_story = None, about_story_ar = None, about_mission = None,
      about_mission_ar = None, about_vision = None, about_vision_ar = None,
      default_language = None, restaurant_email = None, enable_favorites = None,
      enable_cart = None, enable_menu = None, data_version = None\<rparr>"


text \<open>A reorder batch: two stored items and an id that no item has.\<close>

definition swap_batch :: "fields list" where
  "swap_batch =
     [[''id'' \<mapsto> VStr ''bbbbbbbbbbbbbbbbbbbbbbbb'', ''order'' \<mapsto> VInt 0],
      [''id'' \<mapsto> VStr ''cccccccccccccccccccccccc'', ''order'' \<mapsto> VInt 5],
      [''id'' \<mapsto> VStr ''0123456789abcdef01234567'', ''order'' \<mapsto> VInt 9]]"



definition new_phone :: SettingsUpdate where
  "new_phone = no_settings_fields\<lparr>phone := Some ''+971 4 000 0000''\<rparr>"

definition ayran :: MenuItemCreate where
  "ayran =
     \<lparr>MenuItemCreate.title = ''Ayran'', MenuItemCreate.title_ar = [],
      MenuItemCreate.description = ''Yoghurt drink'', MenuItemCreate.description_ar = [],
      MenuItemCreate.price = 12, MenuItemCreate.image = ''menu-images/ayran.jpeg'',
      MenuItemCreate.category_id = ''aaaaaaaaaaaaaaaaaaaaaaaa'',
      MenuItemCreate.is_published = True\<rparr>"

definition soups :: CategoryCreate where
  "soups =
     \<lparr>CategoryCreate.name = ''Soups'', CategoryCreate.name_ar = [],
      CategoryCreate.slug = ''soups'', CategoryCreate.image = ''menu-images/soup.jpeg'',
      CategoryCreate.order = 8\<rparr>"




section \<open>Facts about the store\<close>

lemma matches_Nil [simp]: "matches [] d"
  by (simp add: matches_def)

lemma matches_id [simp]: "matches [(''_id'', Eq (VOid i))] d \<longleftrightarrow> fst d = i"
  by (auto simp: matches_def doc_of_def eq_match_def)

lemma matches_category_id [simp]:
  "matches [(''category_id'', Eq (VStr c))] d \<longleftrightarrow> snd d ''category_id'' = Some (VStr c)"
  by (cases "snd d ''category_id''")
     (auto simp: matches_def doc_of_def eq_match_def elim: bson_eq.elims)

lemma eq_match_VBool [simp]: "eq_match (VBool b) fo \<longleftrightarrow> fo = Some (VBool b)"
  by (cases fo) (auto simp: eq_match_def elim: bson_eq.elims)

lemma eq_match_VStr [simp]: "eq_match (VStr c) fo \<longleftrightarrow> fo = Some (VStr c)"
  by (cases fo) (auto simp: eq_match_def elim: bson_eq.elims)

lemma eq_match_VOid [simp]: "eq_match (VOid i) fo \<longleftrightarrow> fo = Some (VOid i)"
  by (cases fo) (auto simp: eq_match_def elim: bson_eq.elims)

lemma matches_append: "matches (q @ q') d \<longleftrightarrow> matches q d \<and> matches q' d"
  by (simp add: matches_def)

lemma matches_is_published [simp]:
  "matches [(''is_published'', Ne (VBool False))] d \<longleftrightarrow>
     snd d ''is_published'' \<noteq> Some (VBool False)"
  by (simp add: matches_def doc_of_def)

lemma matches_menu_items_query:
  "matches (menu_items_query cat published_only) d \<longleftrightarrow>
     (case cat of None \<Rightarrow> True | Some c \<Rightarrow> c = [] \<or> snd d ''category_id'' = Some (VStr c))
     \<and> (published_only = Some True \<longrightarrow> snd d ''is_published'' \<noteq> Some (VBool False))"
  by (simp add: menu_items_query_def matches_append split: option.splits)


lemma update_first_no_match:
  "\<forall>d\<in>set c. \<not> matches q d \<Longrightarrow> update_first q u c = Inr (0, c)"
  by (induction c) auto


lemma not_None_Nil: "not_None kvs = [] \<longleftrightarrow> all_None kvs"
  by (induction kvs rule: not_None.induct) (simp_all add: all_None_def)


lemma ObjectId_grill: "ObjectId ''aaaaaaaaaaaaaaaaaaaaaaaa'' = Inr ''aaaaaaaaaaaaaaaaaaaaaaaa''"
  by (simp add: ObjectId_def hex_lower_def)

lemma delete_one_no_match:
  "\<forall>d\<in>set c. \<not> matches q d \<Longrightarrow> delete_one q c = (0, c)"
  by (induction c) auto

lemma find_one_Nil: "find_one [] c = (case c of [] \<Rightarrow> None | d # ds \<Rightarrow> Some d)"
  by (cases c) (simp_all add: find_one_def)

lemma ObjectId_drinks: "ObjectId ''0123456789abcdef01234567'' = Inr ''0123456789abcdef01234567''"
  by (simp add: ObjectId_def hex_lower_def)

lemma ObjectId_kebab: "ObjectId ''bbbbbbbbbbbbbbbbbbbbbbbb'' = Inr ''bbbbbbbbbbbbbbbbbbbbbbbb''"
  by (simp add: ObjectId_def hex_lower_def)

lemma update_first_Set:
  "update_first q (Set kvs) c = Inr (n, c') \<Longrightarrow>
     (n = 0 \<and> c' = c \<and> (\<forall>d\<in>set c. \<not> matches q d))
     \<or> (n = 1 \<and> (\<exists>k<length c. matches q (c ! k)
            \<and> c' = c[k := (fst (c ! k), snd (c ! k) ++ map_of kvs)]))"
proof (induction c arbitrary: n c')
  case Nil
  then show ?case by simp
next
  case (Cons d c)
  show ?case
  proof (cases "matches q d")
    case True
    with Cons.prems have "n = 1" "c' = (fst d, snd d ++ map_of kvs) # c"
      by auto
    with True show ?thesis
      by (intro disjI2) (auto intro!: exI [of _ 0])
  next
    case False
    with Cons.prems obtain c0 where c0: "update_first q (Set kvs) c = Inr (n, c0)" "c' = d # c0"
      by (auto split: sum.splits)
    from Cons.IH [OF c0(1)] show ?thesis
    proof
      assume "n = 0 \<and> c0 = c \<and> (\<forall>d\<in>set c. \<not> matches q d)"
      with False c0 show ?thesis by auto
    next
      assume "n = 1 \<and> (\<exists>k<length c. matches q (c ! k)
            \<and> c0 = c[k := (fst (c ! k), snd (c ! k) ++ map_of kvs)])"
      then obtain k where k: "n = 1" "k < length c" "matches q (c ! k)"
        "c0 = c[k := (fst (c ! k), snd (c ! k) ++ map_of kvs)]"
        by auto
      then show ?thesis
        using c0 by (intro disjI2) (auto intro!: exI [of _ "Suc k"])
    qed
  qed
qed

lemma set_with_updated_at:
  "f ++ map_of (kvs @ [(''updated_at'', t)]) =
     (\<lambda>x. case map_of kvs x of
             Some v \<Rightarrow> Some v
           | None \<Rightarrow> if x = ''updated_at'' then Some t else f x)"
  by (rule ext) (auto simp: map_add_def split: option.splits)

lemma inc_data_version_frame:
  "inc_data_version e s = Inr s' \<Longrightarrow> categories s' = categories s \<and> menu_items s' = menu_items s"
  by (auto simp: inc_data_version_def split: sum.splits)

section \<open>Deleting a category\<close>

text \<open>
  C10. Deleting a category by a well-formed id that matches no stored category answers
  404 "Category not found", and the request is not atomic on that path: the menu items
  whose \<^verbatim>\<open>category_id\<close> is the given id are deleted before the category is looked for, so
  they are gone from the store that the failed request leaves behind. Nothing else changes.
\<close>

theorem delete_category_unknown_id_not_atomic:
  assumes "verify_token user = Inr p"
    and "ObjectId cid = Inr i"
    and "i \<notin> fst ` set (categories s)"
  shows "delete_category user cid s =
           (Inl (HTTPException 404 ''Category not found''),
            s\<lparr>menu_items :=
                 filter (\<lambda>d. snd d ''category_id'' \<noteq> Some (VStr cid)) (menu_items s)\<rparr>)"
proof -
  have "delete_one [(''_id'', Eq (VOid i))] (categories s) = (0, categories s)"
    using assms(3) by (intro delete_one_no_match) auto
  then show ?thesis
    using assms(1,2) by (simp add: delete_category_def delete_many_def)
qed

theorem delete_category_unknown_id_not_atomic_witness:
  "verify_token admin = Inr [''username'' \<mapsto> VStr ''admin'']
   \<and> ObjectId drinks = Inr drinks
   \<and> drinks \<notin> fst ` set (categories shop)
   \<and> fst (delete_category admin drinks shop) = Inl (HTTPException 404 ''Category not found'')
   \<and> map fst (menu_items shop) = [kebab, tea]
   \<and> map fst (menu_items (snd (delete_category admin drinks shop))) = [kebab]"
proof -
  have a: "verify_token admin = Inr [''username'' \<mapsto> VStr ''admin'']"
    by (simp add: admin_def)
  have b: "ObjectId drinks = Inr drinks"
    by (simp add: drinks_def ObjectId_drinks)
  have c: "drinks \<notin> fst ` set (categories shop)"
    by (simp add: drinks_def shop_def)
  show ?thesis
    using a b c delete_category_unknown_id_not_atomic [OF a b c]
    by (simp add: shop_def drinks_def kebab_def tea_def)
qed



section \<open>The version counter as read\<close>

lemma read_call_leaves_store: "\<not> mutating c \<Longrightarrow> snd (handle c e s) = s"
  by (cases c)
     (simp_all add: get_categories_def get_menu_items_def get_menu_item_def get_settings_def
        get_public_data_def get_data_version_def Let_def split: sum.splits option.splits)

lemma read_calls_leave_store: "list_all (\<lambda>ce. \<not> mutating (fst ce)) cs \<Longrightarrow> run cs s = s"
  by (induction cs arbitrary: s) (auto simp: read_call_leaves_store)

lemma dataVersion_get_data_version:
  "dataVersion (fst (get_data_version e s)) =
     Some (case stored_version s of None \<Rightarrow> VInt 1 | Some v \<Rightarrow> v)"
  by (cases "settings s")
     (simp_all add: get_data_version_def find_one_Nil stored_version_def
        get_default_def doc_of_def Let_def)

lemma dataVersion_get_public_data:
  "dataVersion (fst (get_public_data e s)) =
     Some (case stored_version s of None \<Rightarrow> VInt 1 | Some v \<Rightarrow> v)"
  by (cases "settings s")
     (simp_all add: get_public_data_def find_one_Nil stored_version_def
        get_default_def doc_of_def Let_def)

text \<open>
  C4. With only reading requests between the two calls, in either order, the
  \<^verbatim>\<open>dataVersion\<close> of \<^verbatim>\<open>get_public_data\<close> is the \<^verbatim>\<open>dataVersion\<close> of
  \<^verbatim>\<open>get_data_version\<close>; and both are 1 when there is no settings document or it has no
  \<^verbatim>\<open>data_version\<close> field.
\<close>

theorem snapshot_version_is_read_version:
  assumes "list_all (\<lambda>ce. \<not> mutating (fst ce)) cs"
  shows "dataVersion (fst (get_public_data e s)) =
           dataVersion (fst (get_data_version e' (run cs (snd (get_public_data e s)))))
         \<and> dataVersion (fst (get_data_version e s)) =
           dataVersion (fst (get_public_data e' (run cs (snd (get_data_version e s)))))
         \<and> (stored_version s = None \<longrightarrow>
              dataVersion (fst (get_data_version e s)) = Some (VInt 1)
              \<and> dataVersion (fst (get_public_data e s)) = Some (VInt 1))"
proof -
  have "snd (get_public_data e s) = s" "snd (get_data_version e s) = s"
    by (simp_all add: get_public_data_def get_data_version_def Let_def)
  then show ?thesis
    using assms
    by (simp add: read_calls_leave_store dataVersion_get_data_version
        dataVersion_get_public_data)
qed

theorem snapshot_version_is_read_version_witness:
  "list_all (\<lambda>ce. \<not> mutating (fst ce)) [(GetCategories, env1), (GetSettings, env1)]
   \<and> stored_version fresh_install = None
   \<and> stored_version \<lparr>categories = [], menu_items = [], settings = []\<rparr> = None
   \<and> dataVersion (fst (get_public_data env1 fresh_install)) = Some (VInt 1)
   \<and> dataVersion (fst (get_data_version env2
        (run [(GetCategories, env1), (GetSettings, env1)]
           (snd (get_public_data env1 fresh_install))))) = Some (VInt 1)"
proof -
  have a: "list_all (\<lambda>ce. \<not> mutating (fst ce)) [(GetCategories, env1), (GetSettings, env1)]"
    by simp
  have b: "stored_version fresh_install = None"
    by (simp add: stored_version_def fresh_install_def)
  have c: "stored_version \<lparr>categories = [], menu_items = [], settings = []\<rparr> = None"
    by (simp add: stored_version_def)
  show ?thesis
    using a b c snapshot_version_is_read_version [OF a, of env1 fresh_install env2]
    by metis
qed

section \<open>Updating\<close>

text \<open>
  C5. For an authenticated caller: an update whose payload has no field set answers
  400 "No data to update", for categories, menu items and settings, and leaves the store
  as it is; an update of a category or a menu item with some field set and a well-formed
  id that no stored document has answers 404, and leaves the store as it is.
\<close>

theorem empty_update_rejected_unknown_id_not_found:
  assumes "verify_token user = Inr p"
  shows "(all_None (CategoryUpdate_dict cu) \<longrightarrow>
            update_category user cid cu e s = (Inl (HTTPException 400 ''No data to update''), s))
       \<and> (all_None (MenuItemUpdate_dict mu) \<longrightarrow>
            update_menu_item user mid mu e s = (Inl (HTTPException 400 ''No data to update''), s))
       \<and> (all_None (SettingsUpdate_dict su) \<longrightarrow>
            update_settings user su e s = (Inl (HTTPException 400 ''No data to update''), s))
       \<and> (\<not> all_None (CategoryUpdate_dict cu') \<and> ObjectId cid = Inr i
            \<and> i \<notin> fst ` set (categories s) \<longrightarrow>
            update_category user cid cu' e s = (Inl (HTTPException 404 ''Category not found''), s))
       \<and> (\<not> all_None (MenuItemUpdate_dict mu') \<and> ObjectId mid = Inr j
            \<and> j \<notin> fst ` set (menu_items s) \<longrightarrow>
            update_menu_item user mid mu' e s = (Inl (HTTPException 404 ''Item not found''), s))"
proof (intro conjI impI)
  assume "all_None (CategoryUpdate_dict cu)"
  then show "update_category user cid cu e s = (Inl (HTTPException 400 ''No data to update''), s)"
    using assms by (simp add: update_category_def not_None_Nil)
next
  assume "all_None (MenuItemUpdate_dict mu)"
  then show "update_menu_item user mid mu e s = (Inl (HTTPException 400 ''No data to update''), s)"
    using assms by (simp add: update_menu_item_def not_None_Nil)
next
  assume "all_None (SettingsUpdate_dict su)"
  then show "update_settings user su e s = (Inl (HTTPException 400 ''No data to update''), s)"
    using assms by (simp add: update_settings_def not_None_Nil)
next
  assume a: "\<not> all_None (CategoryUpdate_dict cu') \<and> ObjectId cid = Inr i
            \<and> i \<notin> fst ` set (categories s)"
  then have "\<forall>d\<in>set (categories s). \<not> matches [(''_id'', Eq (VOid i))] d"
    by auto
  from update_first_no_match [OF this] a
  show "update_category user cid cu' e s = (Inl (HTTPException 404 ''Category not found''), s)"
    using assms by (simp add: update_category_def not_None_Nil update_one_def Let_def)
next
  assume a: "\<not> all_None (MenuItemUpdate_dict mu') \<and> ObjectId mid = Inr j
            \<and> j \<notin> fst ` set (menu_items s)"
  then have "\<forall>d\<in>set (menu_items s). \<not> matches [(''_id'', Eq (VOid j))] d"
    by auto
  from update_first_no_match [OF this] a
  show "update_menu_item user mid mu' e s = (Inl (HTTPException 404 ''Item not found''), s)"
    using assms by (simp add: update_menu_item_def not_None_Nil update_one_def Let_def)
qed

theorem empty_update_rejected_unknown_id_not_found_witness:
  "verify_token admin = Inr [''username'' \<mapsto> VStr ''admin'']
   \<and> all_None (CategoryUpdate_dict no_category_fields)
   \<and> all_None (MenuItemUpdate_dict no_item_fields)
   \<and> all_None (SettingsUpdate_dict no_settings_fields)
   \<and> \<not> all_None (CategoryUpdate_dict rename_category)
   \<and> \<not> all_None (MenuItemUpdate_dict new_price)
   \<and> ObjectId drinks = Inr drinks
   \<and> drinks \<notin> fst ` set (categories shop)
   \<and> drinks \<notin> fst ` set (menu_items shop)
   \<and> update_category admin drinks no_category_fields env1 shop =
       (Inl (HTTPException 400 ''No data to update''), shop)
   \<and> update_menu_item admin drinks no_item_fields env1 shop =
       (Inl (HTTPException 400 ''No data to update''), shop)
   \<and> update_settings admin no_settings_fields env1 shop =
       (Inl (HTTPException 400 ''No data to update''), shop)
   \<and> update_category admin drinks rename_category env1 shop =
       (Inl (HTTPException 404 ''Category not found''), shop)
   \<and> update_menu_item admin drinks new_price env1 shop =
       (Inl (HTTPException 404 ''Item not found''), shop)"
proof -
  have a: "verify_token admin = Inr [''username'' \<mapsto> VStr ''admin'']"
    by (simp add: admin_def)
  have b: "all_None (CategoryUpdate_dict no_category_fields)"
    "all_None (MenuItemUpdate_dict no_item_fields)"
    "all_None (SettingsUpdate_dict no_settings_fields)"
    by (simp_all add: all_None_def CategoryUpdate_dict_def MenuItemUpdate_dict_def
        SettingsUpdate_dict_def no_category_fields_def no_item_fields_def no_settings_fields_def)
  have c: "\<not> all_None (CategoryUpdate_dict rename_category)"
    "\<not> all_None (MenuItemUpdate_dict new_price)"
    by (simp_all add: all_None_def CategoryUpdate_dict_def MenuItemUpdate_dict_def
        rename_category_def new_price_def)
  have d: "ObjectId drinks = Inr drinks" "drinks \<notin> fst ` set (categories shop)"
    "drinks \<notin> fst ` set (menu_items shop)"
    by (simp_all add: drinks_def ObjectId_drinks shop_def)
  show ?thesis
    using a b c d
      empty_update_rejected_unknown_id_not_found [OF a, of no_category_fields drinks env1 shop
        no_item_fields drinks no_settings_fields rename_category drinks new_price drinks]
    by simp
qed

text \<open>
  C6. When an update of a menu item succeeds, one document of the collection is replaced:
  the first with the given id. In it every field that the payload supplies takes the
  supplied value, \<^verbatim>\<open>updated_at\<close> takes the time of the request, and every other field
  keeps its value; every other document of the collection, and every category, is
  unchanged. The same holds for an update of a category.
\<close>

theorem update_changes_supplied_fields_only:
  "(update_menu_item user mid mu e s = (Inr r, s') \<longrightarrow>
      (\<exists>i k. ObjectId mid = Inr i \<and> k < length (menu_items s) \<and> fst (menu_items s ! k) = i
         \<and> menu_items s' =
             (menu_items s)[k := (i, \<lambda>x. case map_of (not_None (MenuItemUpdate_dict mu)) x of
                                          Some v \<Rightarrow> Some v
                                        | None \<Rightarrow> if x = ''updated_at'' then Some (VTime (utcnow e))
                                                   else snd (menu_items s ! k) x)]
         \<and> categories s' = categories s))
   \<and> (update_category user cid cu e s = (Inr r, s') \<longrightarrow>
      (\<exists>i k. ObjectId cid = Inr i \<and> k < length (categories s) \<and> fst (categories s ! k) = i
         \<and> categories s' =
             (categories s)[k := (i, \<lambda>x. case map_of (not_None (CategoryUpdate_dict cu)) x of
                                          Some v \<Rightarrow> Some v
                                        | None \<Rightarrow> if x = ''updated_at'' then Some (VTime (utcnow e))
                                                   else snd (categories s ! k) x)]
         \<and> menu_items s' = menu_items s))"
proof (intro conjI impI)
  assume ok: "update_menu_item user mid mu e s = (Inr r, s')"
  then obtain p where p: "verify_token user = Inr p"
    by (auto simp: update_menu_item_def split: sum.splits)
  from ok p have ne: "not_None (MenuItemUpdate_dict mu) \<noteq> []"
    by (auto simp: update_menu_item_def Let_def split: if_splits)
  from ok p ne obtain i where i: "ObjectId mid = Inr i"
    by (auto simp: update_menu_item_def Let_def split: sum.splits)
  let ?kvs = "not_None (MenuItemUpdate_dict mu) @ [(''updated_at'', VTime (utcnow e))]"
  from ok p ne i obtain n c where u: "update_first [(''_id'', Eq (VOid i))] (Set ?kvs) (menu_items s) = Inr (n, c)"
    by (auto simp: update_menu_item_def Let_def update_one_def split: sum.splits)
  from ok p ne i u have n: "n \<noteq> 0"
    by (auto simp: update_menu_item_def Let_def update_one_def split: if_splits)
  from ok p ne i u n have "inc_data_version e (s\<lparr>menu_items := c\<rparr>) = Inr s'"
    by (auto simp: update_menu_item_def Let_def update_one_def split: sum.splits)
  from inc_data_version_frame [OF this] have fr: "categories s' = categories s" "menu_items s' = c"
    by simp_all
  from update_first_Set [OF u] n obtain k where k: "k < length (menu_items s)"
    "fst (menu_items s ! k) = i"
    "c = (menu_items s)[k := (fst (menu_items s ! k), snd (menu_items s ! k) ++ map_of ?kvs)]"
    by auto
  show "\<exists>i k. ObjectId mid = Inr i \<and> k < length (menu_items s) \<and> fst (menu_items s ! k) = i
         \<and> menu_items s' =
             (menu_items s)[k := (i, \<lambda>x. case map_of (not_None (MenuItemUpdate_dict mu)) x of
                                          Some v \<Rightarrow> Some v
                                        | None \<Rightarrow> if x = ''updated_at'' then Some (VTime (utcnow e))
                                                   else snd (menu_items s ! k) x)]
         \<and> categories s' = categories s"
    using i k fr unfolding set_with_updated_at by (intro exI [of _ i] exI [of _ k]) simp
next
  assume ok: "update_category user cid cu e s = (Inr r, s')"
  then obtain p where p: "verify_token user = Inr p"
    by (auto simp: update_category_def split: sum.splits)
  from ok p have ne: "not_None (CategoryUpdate_dict cu) \<noteq> []"
    by (auto simp: update_category_def Let_def split: if_splits)
  from ok p ne obtain i where i: "ObjectId cid = Inr i"
    by (auto simp: update_category_def Let_def split: sum.splits)
  let ?kvs = "not_None (CategoryUpdate_dict cu) @ [(''updated_at'', VTime (utcnow e))]"
  from ok p ne i obtain n c where u: "update_first [(''_id'', Eq (VOid i))] (Set ?kvs) (categories s) = Inr (n, c)"
    by (auto simp: update_category_def Let_def update_one_def split: sum.splits)
  from ok p ne i u have n: "n \<noteq> 0"
    by (auto simp: update_category_def Let_def update_one_def split: if_splits)
  from ok p ne i u n have "inc_data_version e (s\<lparr>categories := c\<rparr>) = Inr s'"
    by (auto simp: update_category_def Let_def update_one_def split: sum.splits)
  from inc_data_version_frame [OF this] have fr: "menu_items s' = menu_items s" "categories s' = c"
    by simp_all
  from update_first_Set [OF u] n obtain k where k: "k < length (categories s)"
    "fst (categories s ! k) = i"
    "c = (categories s)[k := (fst (categories s ! k), snd (categories s ! k) ++ map_of ?kvs)]"
    by auto
  show "\<exists>i k. ObjectId cid = Inr i \<and> k < length (categories s) \<and> fst (categories s ! k) = i
         \<and> categories s' =
             (categories s)[k := (i, \<lambda>x. case map_of (not_None (CategoryUpdate_dict cu)) x of
                                          Some v \<Rightarrow> Some v
                                        | None \<Rightarrow> if x = ''updated_at'' then Some (VTime (utcnow e))
                                                   else snd (categories s ! k) x)]
         \<and> menu_items s' = menu_items s"
    using i k fr unfolding set_with_updated_at by (intro exI [of _ i] exI [of _ k]) simp
qed

theorem update_changes_supplied_fields_only_witness:
  "(\<exists>r s'. update_menu_item admin kebab new_price env1 shop = (Inr r, s'))
   \<and> (\<exists>r s'. update_category admin grill rename_category env1 shop = (Inr r, s'))
   \<and> map fst (menu_items (snd (update_menu_item admin kebab new_price env1 shop))) = [kebab, tea]
   \<and> snd (menu_items (snd (update_menu_item admin kebab new_price env1 shop)) ! 0) ''price''
       = Some (VFloat 10)
   \<and> snd (menu_items (snd (update_menu_item admin kebab new_price env1 shop)) ! 0) ''title''
       = Some (VStr ''Kebab'')
   \<and> menu_items (snd (update_menu_item admin kebab new_price env1 shop)) ! 1
       = menu_items shop ! 1
   \<and> snd (categories (snd (update_category admin grill rename_category env1 shop)) ! 0) ''name''
       = Some (VStr ''Mangal'')
   \<and> snd (categories (snd (update_category admin grill rename_category env1 shop)) ! 0) ''order''
       = Some (VInt 1)"
proof -
  have "\<exists>r. fst (update_menu_item admin kebab new_price env1 shop) = Inr r"
    by (simp add: update_menu_item_def admin_def kebab_def ObjectId_kebab new_price_def
        MenuItemUpdate_dict_def shop_def update_one_def inc_data_version_def)
  then obtain r s' where a: "update_menu_item admin kebab new_price env1 shop = (Inr r, s')"
    by (cases "update_menu_item admin kebab new_price env1 shop") auto
  have "\<exists>r. fst (update_category admin grill rename_category env1 shop) = Inr r"
    by (simp add: update_category_def admin_def grill_def ObjectId_grill rename_category_def
        CategoryUpdate_dict_def shop_def update_one_def inc_data_version_def)
  then obtain r2 s2 where b: "update_category admin grill rename_category env1 shop = (Inr r2, s2)"
    by (cases "update_category admin grill rename_category env1 shop") auto
  from update_changes_supplied_fields_only
      [where user = admin and mid = kebab and mu = new_price and e = env1 and s = shop
         and r = r and s' = s', THEN conjunct1]
    a
  obtain k where k: "k < length (menu_items shop)" "fst (menu_items shop ! k) = kebab"
    "menu_items s' =
       (menu_items shop)[k := (kebab, \<lambda>x. case map_of (not_None (MenuItemUpdate_dict new_price)) x of
                                          Some v \<Rightarrow> Some v
                                        | None \<Rightarrow> if x = ''updated_at'' then Some (VTime (utcnow env1))
                                                   else snd (menu_items shop ! k) x)]"
    by (auto simp: kebab_def ObjectId_kebab)
  from k(1,2) have k0: "k = 0"
    by (cases k) (auto simp: shop_def kebab_def)
  from update_changes_supplied_fields_only
      [where user = admin and cid = grill and cu = rename_category and e = env1 and s = shop
         and r = r2 and s' = s2, THEN conjunct2] b
  obtain j where j: "j < length (categories shop)" "fst (categories shop ! j) = grill"
    "categories s2 =
       (categories shop)[j := (grill, \<lambda>x. case map_of (not_None (CategoryUpdate_dict rename_category)) x of
                                          Some v \<Rightarrow> Some v
                                        | None \<Rightarrow> if x = ''updated_at'' then Some (VTime (utcnow env1))
                                                   else snd (categories shop ! j) x)]"
    by (auto simp: grill_def ObjectId_grill)
  from j(1) have j0: "j = 0"
    by (simp add: shop_def)
  show ?thesis
    using a b k(3) j(3) unfolding k0 j0
    by (simp add: shop_def kebab_def tea_def new_price_def MenuItemUpdate_dict_def
        rename_category_def CategoryUpdate_dict_def)
qed

section \<open>Listing menu items\<close>


lemma serialize_doc_id: "serialize_doc (Some d) = Some g \<Longrightarrow> g ''id'' = Some (VStr (fst d))"
  by (auto simp: str_oid_def)

lemma set_find_menu_items:
  "set (find_menu_items cat published_only s) =
     {d \<in> set (menu_items s). matches (menu_items_query cat published_only) d}"
  by (auto simp: find_menu_items_def sort_asc_def find_docs_def)

lemma listed_Items:
  "listed i (Inr (Items (serialize_docs ds))) \<longleftrightarrow> i \<in> fst ` set ds"
proof
  assume "listed i (Inr (Items (serialize_docs ds)))"
  then obtain g where g: "Some g \<in> set (serialize_docs ds)" "g ''id'' = Some (VStr (str_oid i))"
    by (auto simp: list_ex_iff split: option.splits)
  from g(1) have "Some g \<in> (\<lambda>doc. serialize_doc (Some doc)) ` set ds"
    unfolding serialize_docs_def set_map .
  then obtain d where d: "d \<in> set ds" "Some g = serialize_doc (Some d)"
    by (rule imageE)
  from d(2) have "g ''id'' = Some (VStr (fst d))"
    by (intro serialize_doc_id) (rule sym)
  with g(2) have "fst d = i"
    by (simp add: str_oid_def)
  with d(1) show "i \<in> fst ` set ds"
    by (rule rev_image_eqI [OF _ sym])
next
  assume "i \<in> fst ` set ds"
  then obtain d where d: "d \<in> set ds" "i = fst d"
    by (rule imageE)
  obtain g where g: "serialize_doc (Some d) = Some g"
    by simp
  from serialize_doc_id [OF g] d(2) have id: "g ''id'' = Some (VStr (str_oid i))"
    by (simp add: str_oid_def)
  from d(1) have "serialize_doc (Some d) \<in> (\<lambda>doc. serialize_doc (Some doc)) ` set ds"
    by (rule imageI)
  then have "Some g \<in> set (serialize_docs ds)"
    unfolding serialize_docs_def set_map g .
  with id show "listed i (Inr (Items (serialize_docs ds)))"
    unfolding listed.simps list_ex_iff by (intro bexI [of _ "Some g"]) simp_all
qed

lemma listed_get_menu_items:
  "listed i (fst (get_menu_items cat published_only s)) \<longleftrightarrow>
     (\<exists>d\<in>set (menu_items s). fst d = i \<and> matches (menu_items_query cat published_only) d)"
  unfolding get_menu_items_def fst_conv listed_Items set_find_menu_items
  by auto

lemma ObjectId_tea: "ObjectId ''cccccccccccccccccccccccc'' = Inr ''cccccccccccccccccccccccc''"
  by (simp add: ObjectId_def hex_lower_def)




section \<open>Publishing\<close>

lemma update_first_id_Set:
  "distinct (map fst c) \<Longrightarrow>
   update_first [(''_id'', Eq (VOid i))] (Set kvs) c =
     Inr (if i \<in> fst ` set c then 1 else 0,
          map (\<lambda>d. if fst d = i then (i, snd d ++ map_of kvs) else d) c)"
proof (induction c)
  case Nil
  then show ?case by simp
next
  case (Cons d c)
  show ?case
  proof (cases "fst d = i")
    case True
    with Cons.prems have "i \<notin> fst ` set c" by auto
    then have "map (\<lambda>d. if fst d = i then (i, snd d ++ map_of kvs) else d) c = c"
      by (intro map_idI) auto
    with True show ?thesis by simp
  next
    case False
    with Cons show ?thesis by auto
  qed
qed

lemma find_one_id:
  "distinct (map fst c) \<Longrightarrow> (i, f) \<in> set c \<Longrightarrow> find_one [(''_id'', Eq (VOid i))] c = Some (i, f)"
proof (induction c)
  case Nil
  then show ?case by simp
next
  case (Cons d c)
  then show ?case
    by (cases "fst d = i") (auto simp: find_one_def rev_image_eqI)
qed

lemma inc_data_version_ok:
  assumes "version_ok s"
  shows "\<exists>s'. inc_data_version e s = Inr s'
           \<and> categories s' = categories s \<and> menu_items s' = menu_items s
           \<and> (stored_version s = None \<longrightarrow> stored_version s' = Some (VInt 1))
           \<and> (\<forall>n. stored_version s = Some (VInt n) \<longrightarrow> stored_version s' = Some (VInt (n + 1)))
           \<and> version_ok s'"
proof (cases "settings s")
  case Nil
  then show ?thesis
    by (simp add: inc_data_version_def update_one_def query_seed_def List.map_filter_simps
        insert_one_def stored_version_def version_ok_def)
next
  case (Cons d ds)
  show ?thesis
  proof (cases "snd d ''data_version''")
    case None
    with Cons show ?thesis
      by (simp add: inc_data_version_def update_one_def stored_version_def version_ok_def)
  next
    case (Some v)
    with Cons assms obtain n where "v = VInt n"
      by (cases v) (auto simp: version_ok_def stored_version_def)
    with Some Cons show ?thesis
      by (simp add: inc_data_version_def update_one_def stored_version_def version_ok_def)
  qed
qed

lemma fst_map_if: "map fst (map (\<lambda>d. if fst d = i then (i, h (snd d)) else d) c) = map fst c"
  by (induction c) auto

lemma in_map_if:
  "(i, g) \<in> set c \<Longrightarrow> (i, h g) \<in> set (map (\<lambda>d. if fst d = i then (i, h (snd d)) else d) c)"
  by (induction c) auto

lemma unique_fields:
  "distinct (map fst c) \<Longrightarrow> (i, g) \<in> set c \<Longrightarrow> (i, g') \<in> set c \<Longrightarrow> g = g'"
  by (rule eq_key_imp_eq_value)

lemma toggle_publish_result:
  assumes p: "verify_token user = Inr p"
    and i: "ObjectId item_id = Inr i"
    and uniq: "distinct (map fst (menu_items s))"
    and mem: "(i, f) \<in> set (menu_items s)"
    and ok: "version_ok s"
  shows "\<exists>s'. toggle_publish_menu_item user item_id e s =
             (Inr (TogglePublish item_id (\<not> truthy (get_default f ''is_published'' (VBool True)))), s')
           \<and> menu_items s' =
               map (\<lambda>d. if fst d = i
                        then (i, snd d ++ map_of
                                [(''is_published'',
                                  VBool (\<not> truthy (get_default f ''is_published'' (VBool True)))),
                                 (''updated_at'', VTime (utcnow e))])
                        else d) (menu_items s)
           \<and> version_ok s'"
proof -
  let ?new = "\<not> truthy (get_default f ''is_published'' (VBool True))"
  let ?kvs = "[(''is_published'', VBool ?new), (''updated_at'', VTime (utcnow e))]"
  let ?c = "map (\<lambda>d. if fst d = i then (i, snd d ++ map_of ?kvs) else d) (menu_items s)"
  have f1: "find_one [(''_id'', Eq (VOid i))] (menu_items s) = Some (i, f)"
    using uniq mem by (rule find_one_id)
  have gd: "get_default (doc_of (i, f)) ''is_published'' (VBool True) =
            get_default f ''is_published'' (VBool True)"
    by (simp add: get_default_def doc_of_def)
  have imem: "i \<in> fst ` set (menu_items s)"
    using mem by (rule rev_image_eqI) simp
  have u: "update_one [(''_id'', Eq (VOid i))] (Set ?kvs) False (upserted_id e) (menu_items s)
             = Inr (1, ?c)"
    unfolding update_one_def update_first_id_Set [OF uniq] using imem by simp
  have "version_ok (s\<lparr>menu_items := ?c\<rparr>)"
    using ok by (simp add: version_ok_def stored_version_def)
  from inc_data_version_ok [OF this, of e]
  obtain s' where s': "inc_data_version e (s\<lparr>menu_items := ?c\<rparr>) = Inr s'"
    "menu_items s' = ?c" "version_ok s'"
    by auto
  have "toggle_publish_menu_item user item_id e s = (Inr (TogglePublish item_id ?new), s')"
    using s'(1) by (simp add: toggle_publish_menu_item_def Let_def p i f1 gd u)
  with s'(2,3) show ?thesis
    by blast
qed

lemma published_after_toggle:
  "matches (menu_items_query cat (Some True))
     (i, g ++ map_of [(''is_published'', VBool b), (''updated_at'', t)]) \<longleftrightarrow>
   b \<and> matches (menu_items_query cat None) (i, g)"
  by (cases b) (auto simp: matches_menu_items_query split: option.splits)

lemma published_unless_false:
  "g ''is_published'' = None \<or> g ''is_published'' = Some (VBool True) \<Longrightarrow>
   matches (menu_items_query cat (Some True)) (i, g) \<longleftrightarrow> matches (menu_items_query cat None) (i, g)"
  by (auto simp: matches_menu_items_query split: option.splits)

text \<open>
  C7. For a stored menu item whose \<^verbatim>\<open>is_published\<close> is absent or true (as the create
  route stores it when the request does not give it), the item is in the published-only
  listing; the first toggle answers false, stores false and takes the item out of the
  published-only listing (whatever the category filter); the second toggle answers true,
  stores true, and the item is in a published-only listing exactly when it was before the
  two toggles. (The caller is authenticated, the id is well-formed, ids are unique, and
  the stored version counter is an integer or absent.)
\<close>

theorem toggle_publish_twice_restores:
  assumes p: "verify_token user = Inr p"
    and i: "ObjectId item_id = Inr i"
    and uniq: "distinct (map fst (menu_items s))"
    and mem: "(i, f) \<in> set (menu_items s)"
    and pub: "f ''is_published'' = None \<or> f ''is_published'' = Some (VBool True)"
    and ok: "version_ok s"
  shows "listed i (fst (get_menu_items None (Some True) s))
       \<and> fst (toggle_publish_menu_item user item_id e s) = Inr (TogglePublish item_id False)
       \<and> map_option (\<lambda>d. snd d ''is_published'')
            (find_one [(''_id'', Eq (VOid i))]
               (menu_items (snd (toggle_publish_menu_item user item_id e s))))
           = Some (Some (VBool False))
       \<and> \<not> listed i (fst (get_menu_items cat (Some True)
                             (snd (toggle_publish_menu_item user item_id e s))))
       \<and> fst (toggle_publish_menu_item user item_id e'
                 (snd (toggle_publish_menu_item user item_id e s)))
           = Inr (TogglePublish item_id True)
       \<and> map_option (\<lambda>d. snd d ''is_published'')
            (find_one [(''_id'', Eq (VOid i))]
               (menu_items (snd (toggle_publish_menu_item user item_id e'
                                   (snd (toggle_publish_menu_item user item_id e s))))))
           = Some (Some (VBool True))
       \<and> listed i (fst (get_menu_items cat (Some True)
                           (snd (toggle_publish_menu_item user item_id e'
                                   (snd (toggle_publish_menu_item user item_id e s))))))
           = listed i (fst (get_menu_items cat (Some True) s))"
proof -
  let ?h1 = "\<lambda>g. g ++ map_of [(''is_published'', VBool False), (''updated_at'', VTime (utcnow e))]"
  let ?h2 = "\<lambda>g. g ++ map_of [(''is_published'', VBool True), (''updated_at'', VTime (utcnow e'))]"
  have new1: "(\<not> truthy (get_default f ''is_published'' (VBool True))) = False"
    using pub by (auto simp: get_default_def)
  from toggle_publish_result [OF p i uniq mem ok, of e]
  obtain s1 where s1: "toggle_publish_menu_item user item_id e s =
      (Inr (TogglePublish item_id False), s1)"
    "menu_items s1 = map (\<lambda>d. if fst d = i then (i, ?h1 (snd d)) else d) (menu_items s)"
    "version_ok s1"
    unfolding new1 by blast
  have uniq1: "distinct (map fst (menu_items s1))"
    unfolding s1(2) fst_map_if [where h = ?h1] by (rule uniq)
  have mem1: "(i, ?h1 f) \<in> set (menu_items s1)"
    unfolding s1(2) using mem by (rule in_map_if [where h = ?h1])
  have new2: "(\<not> truthy (get_default (?h1 f) ''is_published'' (VBool True))) = True"
    by (simp add: get_default_def)
  from toggle_publish_result [OF p i uniq1 mem1 s1(3), of e']
  obtain s2 where s2: "toggle_publish_menu_item user item_id e' s1 =
      (Inr (TogglePublish item_id True), s2)"
    "menu_items s2 = map (\<lambda>d. if fst d = i then (i, ?h2 (snd d)) else d) (menu_items s1)"
    unfolding new2 by blast
  have uniq2: "distinct (map fst (menu_items s2))"
    unfolding s2(2) fst_map_if [where h = ?h2] by (rule uniq1)
  have mem2: "(i, ?h2 (?h1 f)) \<in> set (menu_items s2)"
    unfolding s2(2) using mem1 by (rule in_map_if [where h = ?h2])
  have only: "d = (i, g)" if "d \<in> set c" "fst d = i" "distinct (map fst c)" "(i, g) \<in> set c"
    for d g and c :: collection
  proof -
    from that(1,2) have "(i, snd d) \<in> set c"
      by (metis prod.collapse)
    from unique_fields [OF that(3) this that(4)] that(2) show ?thesis
      by (metis prod.collapse)
  qed
  have lst: "listed i (fst (get_menu_items ct po t)) \<longleftrightarrow> matches (menu_items_query ct po) (i, g)"
    if "distinct (map fst (menu_items t))" "(i, g) \<in> set (menu_items t)" for ct po t g
    unfolding listed_get_menu_items
  proof
    assume "\<exists>d\<in>set (menu_items t). fst d = i \<and> matches (menu_items_query ct po) d"
    then obtain d where d: "d \<in> set (menu_items t)" "fst d = i" "matches (menu_items_query ct po) d"
      by blast
    from only [OF d(1,2) that] d(3) show "matches (menu_items_query ct po) (i, g)"
      by simp
  next
    assume "matches (menu_items_query ct po) (i, g)"
    with that(2) show "\<exists>d\<in>set (menu_items t). fst d = i \<and> matches (menu_items_query ct po) d"
      by (intro bexI [of _ "(i, g)"]) simp_all
  qed
  have m0: "matches (menu_items_query None (Some True)) (i, f)"
    using pub by (auto simp: matches_menu_items_query)
  have l0: "listed i (fst (get_menu_items None (Some True) s))"
    unfolding lst [OF uniq mem] by (rule m0)
  have l1: "\<not> listed i (fst (get_menu_items cat (Some True) s1))"
    unfolding lst [OF uniq1 mem1] published_after_toggle by simp
  have l2: "listed i (fst (get_menu_items cat (Some True) s2))
           = listed i (fst (get_menu_items cat (Some True) s))"
  proof -
    have "matches (menu_items_query cat None) (i, ?h1 f) = matches (menu_items_query cat None) (i, f)"
      by (simp add: matches_menu_items_query split: option.splits)
    then show ?thesis
      unfolding lst [OF uniq2 mem2] lst [OF uniq mem] published_after_toggle
        published_unless_false [where g = f, OF pub] by simp
  qed
  have v1: "find_one [(''_id'', Eq (VOid i))] (menu_items s1) = Some (i, ?h1 f)"
    using uniq1 mem1 by (rule find_one_id)
  have v2: "find_one [(''_id'', Eq (VOid i))] (menu_items s2) = Some (i, ?h2 (?h1 f))"
    using uniq2 mem2 by (rule find_one_id)
  show ?thesis
    unfolding s1(1) snd_conv fst_conv s2(1) v1 v2
    using l0 l1 l2 by simp
qed

theorem toggle_publish_twice_restores_witness:
  "verify_token admin = Inr [''username'' \<mapsto> VStr ''admin'']
   \<and> ObjectId kebab = Inr kebab
   \<and> distinct (map fst (menu_items shop))
   \<and> (kebab, snd (menu_items shop ! 0)) \<in> set (menu_items shop)
   \<and> snd (menu_items shop ! 0) ''is_published'' = None
   \<and> version_ok shop
   \<and> listed kebab (fst (get_menu_items None (Some True) shop))
   \<and> fst (toggle_publish_menu_item admin kebab env1 shop) = Inr (TogglePublish kebab False)
   \<and> \<not> listed kebab (fst (get_menu_items None (Some True)
                             (snd (toggle_publish_menu_item admin kebab env1 shop))))
   \<and> fst (toggle_publish_menu_item admin kebab env2
             (snd (toggle_publish_menu_item admin kebab env1 shop)))
       = Inr (TogglePublish kebab True)
   \<and> listed kebab (fst (get_menu_items None (Some True)
                           (snd (toggle_publish_menu_item admin kebab env2
                                   (snd (toggle_publish_menu_item admin kebab env1 shop))))))"
proof -
  have a: "verify_token admin = Inr [''username'' \<mapsto> VStr ''admin'']"
    by (simp add: admin_def)
  have b: "ObjectId kebab = Inr kebab"
    by (simp add: kebab_def ObjectId_kebab)
  have c: "distinct (map fst (menu_items shop))"
    "(kebab, snd (menu_items shop ! 0)) \<in> set (menu_items shop)"
    by (simp_all add: shop_def kebab_def)
  have d: "snd (menu_items shop ! 0) ''is_published'' = None"
    by (simp add: shop_def)
  have e: "version_ok shop"
    by (simp add: version_ok_def stored_version_def shop_def)
  from toggle_publish_twice_restores [OF a b c disjI1 [OF d] e, of env1 None env2]
  show ?thesis
    using a b c d e by simp
qed

section \<open>Reordering\<close>







section \<open>The version counter as written\<close>

lemma version_ok_settings:
  "settings s1 = settings s \<Longrightarrow> version_ok s1 = version_ok s"
  "settings s1 = settings s \<Longrightarrow> stored_version s1 = stored_version s"
  by (simp_all add: version_ok_def stored_version_def)

lemma counted_Inl:
  "version_ok s \<Longrightarrow> settings s1 = settings s \<Longrightarrow> counted s (Inl err, s1)"
  using version_ok_settings [of s1 s] by (simp add: counted_def)

lemma counted_inc:
  assumes "version_ok s" "settings s1 = settings s"
  shows "counted s (case inc_data_version e s1 of
                      Inl err \<Rightarrow> (Inl err, s1)
                    | Inr s2 \<Rightarrow> (Inr (r s2), s2))"
proof -
  from assms version_ok_settings [of s1 s]
  have ok1: "version_ok s1" and same: "stored_version s1 = stored_version s"
    by simp_all
  from inc_data_version_ok [OF ok1, of e]
  obtain s2 where s2: "inc_data_version e s1 = Inr s2" "version_ok s2"
    "stored_version s1 = None \<longrightarrow> stored_version s2 = Some (VInt 1)"
    "\<forall>n. stored_version s1 = Some (VInt n) \<longrightarrow> stored_version s2 = Some (VInt (n + 1))"
    by auto
  have "stored_version s2 = incremented (stored_version s)"
  proof (cases "stored_version s")
    case None
    with s2(3) same show ?thesis
      by (simp add: incremented_def)
  next
    case (Some v)
    with assms(1) obtain n where "v = VInt n"
      by (cases v) (simp_all add: version_ok_def)
    with Some s2(4) same show ?thesis
      by (simp add: incremented_def)
  qed
  with s2(1,2) show ?thesis
    by (simp add: counted_def)
qed

lemma update_category_counted:
  "version_ok s \<Longrightarrow> counted s (update_category user cid data e s)"
  by (simp add: update_category_def Let_def counted_Inl counted_inc
      split: sum.splits prod.splits)

lemma create_menu_item_counted:
  "version_ok s \<Longrightarrow> counted s (create_menu_item user data e s)"
  by (simp add: create_menu_item_def Let_def counted_Inl counted_inc
      split: sum.splits prod.splits)

lemma update_menu_item_counted:
  "version_ok s \<Longrightarrow> counted s (update_menu_item user item_id data e s)"
  by (simp add: update_menu_item_def Let_def counted_Inl counted_inc
      split: sum.splits prod.splits)

lemma delete_menu_item_counted:
  "version_ok s \<Longrightarrow> counted s (delete_menu_item user item_id e s)"
  by (simp add: delete_menu_item_def Let_def counted_Inl counted_inc
      split: sum.splits prod.splits)

lemma toggle_publish_menu_item_counted:
  "version_ok s \<Longrightarrow> counted s (toggle_publish_menu_item user item_id e s)"
  by (simp add: toggle_publish_menu_item_def Let_def counted_Inl counted_inc
      split: sum.splits prod.splits option.splits)

lemma reorder_categories_counted:
  "version_ok s \<Longrightarrow> counted s (reorder_categories user orders e s)"
  by (simp add: reorder_categories_def Let_def counted_Inl counted_inc
      split: sum.splits prod.splits option.splits)

lemma reorder_menu_items_counted:
  "version_ok s \<Longrightarrow> counted s (reorder_menu_items user orders e s)"
  by (simp add: reorder_menu_items_def Let_def counted_Inl counted_inc
      split: sum.splits prod.splits option.splits)

lemma create_category_settings: "settings (snd (create_category user data e s)) = settings s"
  by (simp add: create_category_def Let_def split: sum.splits)

lemma delete_category_settings: "settings (snd (delete_category user cid s)) = settings s"
  by (simp add: delete_category_def Let_def split: sum.splits prod.splits)

lemma not_None_mem: "(k, v) \<in> set (not_None kvs) \<Longrightarrow> (k, Some v) \<in> set kvs"
  by (induction kvs rule: not_None.induct) auto

lemma map_of_not_None:
  "distinct (map fst kvs) \<Longrightarrow>
   map_of (not_None kvs) k = (case map_of kvs k of Some (Some v) \<Rightarrow> Some v | _ \<Rightarrow> None)"
proof (induction kvs rule: not_None.induct)
  case 1
  then show ?case by simp
next
  case (2 k' kvs)
  show ?case
  proof (cases "k = k'")
    case True
    with "2.prems" have "k \<notin> fst ` set kvs" by auto
    then have "map_of (not_None kvs) k = None"
      by (auto simp: map_of_eq_None_iff dest: not_None_mem intro: rev_image_eqI)
    with True show ?thesis by simp
  next
    case False
    with 2 show ?thesis by simp
  qed
next
  case (3 k' v kvs)
  then show ?case by simp
qed

lemma distinct_SettingsUpdate_dict: "distinct (map fst (SettingsUpdate_dict data))"
  by (simp add: SettingsUpdate_dict_def)

lemma SettingsUpdate_data_version:
  "map_of (not_None (SettingsUpdate_dict data)) ''data_version'' = map_option VInt (data_version data)"
proof -
  have "map_of (SettingsUpdate_dict data) ''data_version'' = Some (map_option VInt (data_version data))"
    by (simp add: SettingsUpdate_dict_def)
  then show ?thesis
    unfolding map_of_not_None [OF distinct_SettingsUpdate_dict]
    by (cases "data_version data") simp_all
qed

lemma upsert_Set:
  "update_one [] (Set kvs) True uid c =
     Inr (case c of
            [] \<Rightarrow> (0, [(uid, map_of kvs)])
          | d # ds \<Rightarrow> (1, (fst d, snd d ++ map_of kvs) # ds))"
  by (cases c) (simp_all add: update_one_def query_seed_def List.map_filter_simps insert_one_def)

lemma set_settings_stored_version:
  "stored_version
     (s\<lparr>settings := (case settings s of
                       [] \<Rightarrow> [(uid, map_of kvs)]
                     | d # ds \<Rightarrow> (fst d, snd d ++ map_of kvs) # ds)\<rparr>)
   = (case map_of kvs ''data_version'' of None \<Rightarrow> stored_version s | Some v \<Rightarrow> Some v)"
  by (cases "settings s") (simp_all add: stored_version_def map_add_def split: option.splits)

lemma update_settings_unfold:
  assumes "verify_token user = Inr p" "not_None (SettingsUpdate_dict data) \<noteq> []"
  shows "\<exists>s1. stored_version s1 =
               (case data_version data of None \<Rightarrow> stored_version s | Some v \<Rightarrow> Some (VInt v))
           \<and> update_settings user data e s =
               (case inc_data_version e s1 of
                  Inl err \<Rightarrow> (Inl err, s1)
                | Inr s2 \<Rightarrow> (Inr (Settings (serialize_doc (find_one [] (settings s2)))), s2))"
proof -
  let ?kvs = "not_None (SettingsUpdate_dict data) @ [(''updated_at'', VTime (utcnow e))]"
  let ?c = "case settings s of
              [] \<Rightarrow> [(upserted_id e, map_of ?kvs)]
            | d # ds \<Rightarrow> (fst d, snd d ++ map_of ?kvs) # ds"
  have kv: "map_of ?kvs ''data_version'' = map_option VInt (data_version data)"
    by (simp add: map_add_def SettingsUpdate_data_version split: option.splits)
  have 1: "stored_version (s\<lparr>settings := ?c\<rparr>) =
             (case data_version data of None \<Rightarrow> stored_version s | Some v \<Rightarrow> Some (VInt v))"
    unfolding set_settings_stored_version kv by (cases "data_version data") simp_all
  have 2: "update_settings user data e s =
               (case inc_data_version e (s\<lparr>settings := ?c\<rparr>) of
                  Inl err \<Rightarrow> (Inl err, s\<lparr>settings := ?c\<rparr>)
                | Inr s2 \<Rightarrow> (Inr (Settings (serialize_doc (find_one [] (settings s2)))), s2))"
  proof -
    have u: "update_one [] (Set ?kvs) True (upserted_id e) (settings s) =
               Inr (case settings s of [] \<Rightarrow> 0 | d # ds \<Rightarrow> 1, ?c)"
      by (cases "settings s") (simp_all add: upsert_Set)
    show ?thesis
      by (simp only: update_settings_def Let_def assms u sum.case prod.case if_False)
  qed
  from 1 2 show ?thesis
    by blast
qed

lemma update_settings_counted:
  assumes "version_ok s" "data_version data = None"
  shows "counted s (update_settings user data e s)"
proof (cases "verify_token user")
  case (Inl err)
  with assms(1) show ?thesis
    by (simp add: update_settings_def counted_Inl)
next
  case (Inr p)
  show ?thesis
  proof (cases "not_None (SettingsUpdate_dict data) = []")
    case True
    with Inr assms(1) show ?thesis
      by (simp add: update_settings_def counted_Inl)
  next
    case False
    from update_settings_unfold [OF Inr False, of s e] assms(2)
    obtain s1 where s1: "stored_version s1 = stored_version s"
      "update_settings user data e s =
               (case inc_data_version e s1 of
                  Inl err \<Rightarrow> (Inl err, s1)
                | Inr s2 \<Rightarrow> (Inr (Settings (serialize_doc (find_one [] (settings s2)))), s2))"
      by auto
    from s1(1) assms(1) have ok1: "version_ok s1"
      by (simp add: version_ok_def)
    have "counted s1 (update_settings user data e s)"
      unfolding s1(2) using ok1 refl by (rule counted_inc)
    then show ?thesis
      unfolding counted_def s1(1) .
  qed
qed

lemma update_settings_sets_version:
  assumes "verify_token user = Inr p" "data_version data = Some v"
  shows "\<exists>r. fst (update_settings user data e s) = Inr r
           \<and> stored_version (snd (update_settings user data e s)) = Some (VInt (v + 1))"
proof -
  have "map_of (not_None (SettingsUpdate_dict data)) ''data_version'' \<noteq> None"
    unfolding SettingsUpdate_data_version assms(2) by simp
  then have ne: "not_None (SettingsUpdate_dict data) \<noteq> []"
    by auto
  from update_settings_unfold [OF assms(1) ne, of s e] assms(2)
  obtain s1 where s1: "stored_version s1 = Some (VInt v)"
      "update_settings user data e s =
               (case inc_data_version e s1 of
                  Inl err \<Rightarrow> (Inl err, s1)
                | Inr s2 \<Rightarrow> (Inr (Settings (serialize_doc (find_one [] (settings s2)))), s2))"
    by auto
  from s1(1) have ok1: "version_ok s1"
    by (simp add: version_ok_def)
  from inc_data_version_ok [OF ok1, of e] s1(1)
  obtain s2 where "inc_data_version e s1 = Inr s2" "stored_version s2 = Some (VInt (v + 1))"
    by auto
  then show ?thesis
    by (simp add: s1(2))
qed

lemma handle_counted:
  assumes "version_ok s" "\<not> sets_version c"
  shows "version_ok (snd (handle c e s))
       \<and> stored_version (snd (handle c e s)) =
           (if mutating c \<and> \<not> category_create_or_delete c \<and> successful c e s
            then incremented (stored_version s) else stored_version s)"
proof (cases "mutating c")
  case False
  then show ?thesis
    using assms(1) by (simp add: read_call_leaves_store)
next
  case True
  show ?thesis
  proof (cases "category_create_or_delete c")
    case yes: True
    then have "settings (snd (handle c e s)) = settings s"
      by (cases c) (simp_all add: create_category_settings delete_category_settings)
    from version_ok_settings [OF this] assms(1) yes show ?thesis
      by simp
  next
    case no: False
    have "counted s (handle c e s)"
      using True no assms
      by (cases c) (simp_all add: update_category_counted create_menu_item_counted
          update_menu_item_counted delete_menu_item_counted toggle_publish_menu_item_counted
          reorder_categories_counted reorder_menu_items_counted update_settings_counted)
    with True no show ?thesis
      by (cases "fst (handle c e s)") (simp_all add: counted_def successful_def)
  qed
qed







lemmas handler_defs =
  successful_def update_category_def update_menu_item_def create_menu_item_def
  update_settings_def get_public_data_def create_category_def delete_category_def
  toggle_publish_menu_item_def reorder_menu_items_def get_menu_items_def
  update_one_def inc_data_version_def insert_one_def delete_many_def find_one_def Let_def

lemmas example_defs =
  admin_def grill_def drinks_def kebab_def ObjectId_grill ObjectId_drinks ObjectId_kebab
  ObjectId_tea rename_category_def new_price_def new_phone_def no_settings_fields_def ayran_def
  soups_def swap_batch_def CategoryUpdate_dict_def MenuItemUpdate_dict_def
  MenuItemCreate_dict_def CategoryCreate_dict_def SettingsUpdate_dict_def shop_def
  fresh_install_def env1_def env2_def



text \<open>
  Two places where a successful mutation does not move the version a reader sees:
  creating and deleting a category never run the increment, and on a store without a
  stored \<^verbatim>\<open>data_version\<close> the first increment stores 1, which is what a reader took
  the missing field for.
\<close>

lemma category_create_and_delete_leave_counter:
  "successful (CreateCategory admin soups) env1 shop
   \<and> successful (DeleteCategory admin grill) env1 shop
   \<and> stored_version (snd (handle (CreateCategory admin soups) env1 shop)) = Some (VInt 10)
   \<and> stored_version (snd (handle (DeleteCategory admin grill) env1 shop)) = Some (VInt 10)"
  by (simp add: handler_defs example_defs stored_version_def)

lemma first_increment_reads_one:
  "successful (CreateMenuItem admin ayran) env1 fresh_install
   \<and> dataVersion (fst (get_data_version env1 fresh_install)) = Some (VInt 1)
   \<and> dataVersion (fst (get_data_version env2
        (snd (handle (CreateMenuItem admin ayran) env1 fresh_install)))) = Some (VInt 1)"
  by (simp add: handler_defs example_defs dataVersion_get_data_version stored_version_def)










section \<open>Malformed ids\<close>

text \<open>
  The theorems above are about ids that \<^verbatim>\<open>ObjectId\<close> accepts. For any other string the
  constructor raises \<^verbatim>\<open>InvalidId\<close>, which no handler catches: an update with that id
  changes nothing, a category delete has already deleted the menu items that refer to the
  string, and a reorder stops at the entry, keeping the orders it has set so far and
  leaving the version as it is.
\<close>

lemma ObjectId_malformed: "ObjectId cid = Inl err \<Longrightarrow> err = InvalidId"
  by (simp add: ObjectId_def split: if_splits option.splits)

lemma update_malformed_id:
  assumes "verify_token user = Inr p" "ObjectId cid = Inl err"
  shows "\<not> all_None (CategoryUpdate_dict cu) \<Longrightarrow>
           update_category user cid cu e s = (Inl InvalidId, s)"
    and "\<not> all_None (MenuItemUpdate_dict mu) \<Longrightarrow>
           update_menu_item user cid mu e s = (Inl InvalidId, s)"
  using assms ObjectId_malformed [OF assms(2)]
  by (simp_all add: update_category_def update_menu_item_def not_None_Nil Let_def)

lemma delete_category_malformed_id:
  assumes "verify_token user = Inr p" "ObjectId cid = Inl err"
  shows "delete_category user cid s =
           (Inl InvalidId,
            s\<lparr>menu_items :=
                 filter (\<lambda>d. snd d ''category_id'' \<noteq> Some (VStr cid)) (menu_items s)\<rparr>)"
  using assms ObjectId_malformed [OF assms(2)]
  by (simp add: delete_category_def delete_many_def)

lemma reorder_malformed_id:
  assumes "verify_token user = Inr p" "item ''id'' = Some (VStr cid)" "ObjectId cid = Inl err"
  shows "reorder_menu_items user (item # orders) e s = (Inl InvalidId, s)"
  using assms ObjectId_malformed [OF assms(3)]
  by (simp add: reorder_menu_items_def)

section \<open>Invariants of the store\<close>

text \<open>
  Two conditions that the theorems above assume hold on the empty store and are kept by
  every request: ids are unique within each collection, and the stored version counter is
  an integer whenever it is there.
\<close>

lemma insert_one_distinct:
  "insert_one i f c = Inr c' \<Longrightarrow> distinct (map fst c) \<Longrightarrow> distinct (map fst c')"
  by (auto simp: insert_one_def split: if_splits)

lemma update_first_fst:
  "update_first q u c = Inr (n, c') \<Longrightarrow> map fst c' = map fst c"
  by (induction c arbitrary: n c') (auto split: if_splits sum.splits)

lemma update_one_distinct:
  assumes "update_one q u upsert i c = Inr (n, c')" "distinct (map fst c)"
  shows "distinct (map fst c')"
proof -
  from assms(1) obtain m c0 where u: "update_first q u c = Inr (m, c0)"
    by (auto simp: update_one_def split: sum.splits)
  show ?thesis
  proof (cases "m = 0 \<and> upsert")
    case True
    with assms(1) u obtain f where "insert_one i f c = Inr c'"
      by (auto simp: update_one_def split: sum.splits)
    then show ?thesis
      using assms(2) by (rule insert_one_distinct)
  next
    case False
    with assms(1) u have "c' = c0"
      by (auto simp: update_one_def)
    with update_first_fst [OF u] assms(2) show ?thesis
      by simp
  qed
qed

lemma set_delete_one: "set (snd (delete_one q c)) \<subseteq> set c"
  by (induction c) (auto split: prod.splits)

lemma delete_one_distinct:
  "distinct (map fst c) \<Longrightarrow> distinct (map fst (snd (delete_one q c)))"
proof (induction c)
  case Nil
  then show ?case by simp
next
  case (Cons d c)
  show ?case
  proof (cases "matches q d")
    case True
    with Cons.prems show ?thesis by simp
  next
    case False
    from Cons.prems have "fst d \<notin> fst ` set c" by simp
    with set_delete_one [of q c] have "fst d \<notin> fst ` set (snd (delete_one q c))"
      by blast
    with False Cons show ?thesis
      by (cases "delete_one q c") simp
  qed
qed

lemma delete_many_distinct:
  "distinct (map fst c) \<Longrightarrow> distinct (map fst (snd (delete_many q c)))"
  by (simp add: delete_many_def distinct_map_filter)

lemma reorder_loop_distinct:
  "distinct (map fst c) \<Longrightarrow> distinct (map fst (snd (reorder_loop e orders c)))"
proof (induction orders arbitrary: c)
  case Nil
  then show ?case by simp
next
  case (Cons item orders)
  show ?case
  proof (cases "reorder_loop e [item] c")
    case (Pair err c1)
    show ?thesis
      using Cons.prems Cons.IH update_one_distinct
      by (auto split: option.splits sum.splits)
  qed
qed

lemma inc_data_version_unique:
  "inc_data_version e s = Inr s' \<Longrightarrow> unique_ids s \<Longrightarrow> unique_ids s'"
  by (auto simp: inc_data_version_def unique_ids_def split: sum.splits dest: update_one_distinct)

lemma create_category_unique:
  assumes "unique_ids s"
  shows "unique_ids (snd (create_category user data e s))"
proof -
  have k: "unique_ids (s\<lparr>categories := c\<rparr>)" if "insert_one i f (categories s) = Inr c" for i f c
    using insert_one_distinct [OF that] assms by (simp add: unique_ids_def)
  show ?thesis
    using assms by (auto simp: create_category_def Let_def split: sum.splits intro: k)
qed

lemma update_category_unique:
  assumes "unique_ids s"
  shows "unique_ids (snd (update_category user cid data e s))"
proof -
  have k: "unique_ids (s\<lparr>categories := c\<rparr>)"
    if "update_one q u up i (categories s) = Inr (n, c)" for q u up i n c
    using update_one_distinct [OF that] assms by (simp add: unique_ids_def)
  show ?thesis
    using assms
    by (auto simp: update_category_def Let_def split: sum.splits prod.splits
        intro: k inc_data_version_unique)
qed

lemma delete_category_unique:
  assumes "unique_ids s"
  shows "unique_ids (snd (delete_category user cid s))"
proof -
  have m: "unique_ids (s\<lparr>menu_items := snd (delete_many q (menu_items s))\<rparr>)" for q
    using assms delete_many_distinct [of "menu_items s" q]
    by (simp add: unique_ids_def)
  have k: "unique_ids (s\<lparr>menu_items := snd (delete_many q (menu_items s)), categories := c\<rparr>)"
    if "delete_one q' (categories s) = (n, c)" for q q' n c
    using assms delete_many_distinct [of "menu_items s" q]
      delete_one_distinct [of "categories s" q'] that
    by (simp add: unique_ids_def)
  show ?thesis
    using assms
    by (auto simp: delete_category_def Let_def split: sum.splits prod.splits intro: m k)
qed

lemma create_menu_item_unique:
  assumes "unique_ids s"
  shows "unique_ids (snd (create_menu_item user data e s))"
proof -
  have k: "unique_ids (s\<lparr>menu_items := c\<rparr>)" if "insert_one i f (menu_items s) = Inr c" for i f c
    using insert_one_distinct [OF that] assms by (simp add: unique_ids_def)
  show ?thesis
    using assms
    by (auto simp: create_menu_item_def Let_def split: sum.splits
        intro: k inc_data_version_unique)
qed

lemma update_menu_item_unique:
  assumes "unique_ids s"
  shows "unique_ids (snd (update_menu_item user item_id data e s))"
proof -
  have k: "unique_ids (s\<lparr>menu_items := c\<rparr>)"
    if "update_one q u up i (menu_items s) = Inr (n, c)" for q u up i n c
    using update_one_distinct [OF that] assms by (simp add: unique_ids_def)
  show ?thesis
    using assms
    by (auto simp: update_menu_item_def Let_def split: sum.splits prod.splits
        intro: k inc_data_version_unique)
qed

lemma delete_menu_item_unique:
  assumes "unique_ids s"
  shows "unique_ids (snd (delete_menu_item user item_id e s))"
proof -
  have k: "unique_ids (s\<lparr>menu_items := c\<rparr>)"
    if "delete_one q (menu_items s) = (n, c)" for q n c
    using delete_one_distinct [of "menu_items s" q] assms that by (simp add: unique_ids_def)
  show ?thesis
    using assms
    by (auto simp: delete_menu_item_def Let_def split: sum.splits prod.splits
        intro: k inc_data_version_unique)
qed

lemma toggle_publish_menu_item_unique:
  assumes "unique_ids s"
  shows "unique_ids (snd (toggle_publish_menu_item user item_id e s))"
proof -
  have k: "unique_ids (s\<lparr>menu_items := c\<rparr>)"
    if "update_one q u up i (menu_items s) = Inr (n, c)" for q u up i n c
    using update_one_distinct [OF that] assms by (simp add: unique_ids_def)
  show ?thesis
    using assms
    by (auto simp: toggle_publish_menu_item_def Let_def split: sum.splits prod.splits option.splits
        intro: k inc_data_version_unique)
qed

lemma reorder_categories_unique:
  assumes "unique_ids s"
  shows "unique_ids (snd (reorder_categories user orders e s))"
proof -
  have k: "unique_ids (s\<lparr>categories := c\<rparr>)"
    if "reorder_loop e' os (categories s) = (r, c)" for e' os r c
    using reorder_loop_distinct [of "categories s" e' os] assms that by (simp add: unique_ids_def)
  show ?thesis
    using assms
    by (auto simp: reorder_categories_def Let_def split: sum.splits prod.splits option.splits
        intro: k inc_data_version_unique)
qed

lemma reorder_menu_items_unique:
  assumes "unique_ids s"
  shows "unique_ids (snd (reorder_menu_items user orders e s))"
proof -
  have k: "unique_ids (s\<lparr>menu_items := c\<rparr>)"
    if "reorder_loop e' os (menu_items s) = (r, c)" for e' os r c
    using reorder_loop_distinct [of "menu_items s" e' os] assms that by (simp add: unique_ids_def)
  show ?thesis
    using assms
    by (auto simp: reorder_menu_items_def Let_def split: sum.splits prod.splits option.splits
        intro: k inc_data_version_unique)
qed

lemma update_settings_unique:
  assumes "unique_ids s"
  shows "unique_ids (snd (update_settings user data e s))"
proof -
  have k: "unique_ids (s\<lparr>settings := c\<rparr>)"
    if "update_one q u up i (settings s) = Inr (n, c)" for q u up i n c
    using update_one_distinct [OF that] assms by (simp add: unique_ids_def)
  show ?thesis
    using assms
    by (auto simp: update_settings_def Let_def split: sum.splits prod.splits
        intro: k inc_data_version_unique)
qed

lemma handle_unique_ids: "unique_ids s \<Longrightarrow> unique_ids (snd (handle c e s))"
  by (cases c)
     (simp_all add: create_category_unique update_category_unique delete_category_unique
        create_menu_item_unique update_menu_item_unique delete_menu_item_unique
        toggle_publish_menu_item_unique reorder_categories_unique reorder_menu_items_unique
        update_settings_unique get_categories_def get_menu_items_def get_menu_item_def
        get_settings_def get_public_data_def get_data_version_def Let_def
        split: sum.splits option.splits)

lemma run_unique_ids: "unique_ids s \<Longrightarrow> unique_ids (run cs s)"
  by (induction cs arbitrary: s) (auto simp: handle_unique_ids)

lemma handle_version_ok: "version_ok s \<Longrightarrow> version_ok (snd (handle c e s))"
proof (cases "sets_version c")
  case False
  assume "version_ok s"
  from handle_counted [OF this False] show ?thesis
    by simp
next
  case True
  assume ok: "version_ok s"
  from True obtain user data v where c: "c = UpdateSettings user data" "data_version data = Some v"
    by (cases c) auto
  show ?thesis
  proof (cases "verify_token user")
    case (Inl err)
    with ok c show ?thesis
      by (simp add: update_settings_def)
  next
    case (Inr p)
    from update_settings_sets_version [OF Inr c(2), of e s] c(1) show ?thesis
      by (auto simp: version_ok_def)
  qed
qed

lemma run_version_ok: "version_ok s \<Longrightarrow> version_ok (run cs s)"
  by (induction cs arbitrary: s) (auto simp: handle_version_ok)

lemma empty_store_invariants:
  "unique_ids \<lparr>categories = [], menu_items = [], settings = []\<rparr>"
  "version_ok \<lparr>categories = [], menu_items = [], settings = []\<rparr>"
  by (simp_all add: unique_ids_def version_ok_def stored_version_def)

end
